theory Spec2Isabelle
  imports Main "HOL-Library.Multiset"
begin

section \<open>Data model of checkPeerDependencies.ts\<close>

text \<open>
  A Dependency is one peer-dependency edge. The gatherer fills \<open>name\<close>, \<open>version\<close> (a semver
  range), \<open>depender\<close> and \<open>dependerVersion\<close>; \<open>applySemverInformation\<close> overwrites the last
  three fields. \<open>installedVersion\<close> is \<open>string | undefined\<close> in the source: \<open>None\<close> is
  \<open>undefined\<close>.
\<close>

record Dependency =
  name :: string
  version :: string
  depender :: string
  dependerVersion :: string
  installedVersion :: "string option"
  semverSatisfies :: bool
  isYalc :: bool

record Resolution =
  problem :: Dependency
  resolution :: "string option"

text \<open>
  The options the file reads. \<open>orderBy\<close> is compared with the strings \<open>'depender'\<close> and
  \<open>'dependee'\<close>; any other string stands for every other value. The option
  \<open>options.findSolutions\<close> is named \<open>findSolutionsOpt\<close>, since the file also has a function
  \<open>findSolutions\<close>.
\<close>

record CliOptions =
  verbose :: bool
  orderBy :: string
  install :: bool
  findSolutionsOpt :: bool

text \<open>An exception thrown by a library call, with its message.\<close>

datatype error = Thrown string

text \<open>
  The collaborators imported by the file, over a state \<open>'w\<close> of the installed packages on
  disk and of the registry: \<open>gatherPeerDependencies(".", options)\<close>, \<open>getInstalledVersion\<close>,
  \<open>isSameDep\<close>, \<open>findPossibleResolutions\<close>, \<open>getCommandLines\<close>, shelljs' \<open>exec\<close> (which changes
  the disk) and \<open>String.prototype.localeCompare\<close>. Of the semver library the environment
  holds the two parts that \<open>semver.satisfies\<close> is made of: \<open>validRange\<close>, whether a string
  parses as a range (\<open>semver.validRange(range)\<close> is not null), and \<open>rangeTest\<close>, the test of
  a version against a range that parses (\<open>Range.test\<close>, which may throw).
\<close>

record 'w env =
  gatherPeerDependencies :: "'w \<Rightarrow> CliOptions \<Rightarrow> Dependency list"
  getInstalledVersion :: "'w \<Rightarrow> Dependency \<Rightarrow> string option"
  validRange :: "string \<Rightarrow> bool"
  rangeTest :: "string \<Rightarrow> string \<Rightarrow> error + bool"
  isSameDep :: "Dependency \<Rightarrow> Dependency \<Rightarrow> bool"
  findPossibleResolutions :: "'w \<Rightarrow> Dependency list \<Rightarrow> Dependency list \<Rightarrow> Resolution list"
  getCommandLines :: "string \<Rightarrow> Resolution list \<Rightarrow> string list"
  exec :: "string \<Rightarrow> 'w \<Rightarrow> 'w"
  localeCompare :: "string \<Rightarrow> string \<Rightarrow> int"

text \<open>
  Modelled from the documentation of the semver library, which is not code of this
  repository: \<open>satisfies(version, range)\<close> returns true if the version satisfies the range.
  A string that is no valid range is satisfied by no version: the function catches the
  error of the range parser and returns false. For a range that parses, the answer is
  the test of the version against it.
\<close>

definition satisfies :: "'w env \<Rightarrow> string \<Rightarrow> string \<Rightarrow> error + bool" where
  "satisfies env v r = (if validRange env r then rangeTest env v r else Inr False)"

text \<open>JavaScript truthiness of a \<open>string | undefined\<close>: \<open>undefined\<close> and \<open>""\<close> are falsy.\<close>

definition truthy :: "string option \<Rightarrow> bool" where
  "truthy v = (case v of None \<Rightarrow> False | Some s \<Rightarrow> s \<noteq> [])"

text \<open>\<open>RegExp.prototype.exec\<close> converts its argument to a string first.\<close>

definition toString :: "string option \<Rightarrow> string" where
  "toString v = (case v of None \<Rightarrow> ''undefined'' | Some s \<Rightarrow> s)"

section \<open>Regular expressions\<close>

text \<open>
  The fragment of JavaScript regular expressions that \<open>/-[a-f0-9]+-yalc$/\<close> uses: a literal
  character, a character class, concatenation and repetition. Matching is by derivatives.
\<close>

datatype rexp =
  Zero
  | One
  | Chr char
  | Cls "char list"
  | Alt rexp rexp
  | Seq rexp rexp
  | Star rexp

definition Plus :: "rexp \<Rightarrow> rexp" where
  "Plus r = Seq r (Star r)"

fun Lit :: "string \<Rightarrow> rexp" where
  "Lit [] = One"
| "Lit (c # cs) = Seq (Chr c) (Lit cs)"

fun nullable :: "rexp \<Rightarrow> bool" where
  "nullable Zero = False"
| "nullable One = True"
| "nullable (Chr c) = False"
| "nullable (Cls cs) = False"
| "nullable (Alt r s) = (nullable r \<or> nullable s)"
| "nullable (Seq r s) = (nullable r \<and> nullable s)"
| "nullable (Star r) = True"

fun deriv :: "char \<Rightarrow> rexp \<Rightarrow> rexp" where
  "deriv a Zero = Zero"
| "deriv a One = Zero"
| "deriv a (Chr c) = (if a = c then One else Zero)"
| "deriv a (Cls cs) = (if a \<in> set cs then One else Zero)"
| "deriv a (Alt r s) = Alt (deriv a r) (deriv a s)"
| "deriv a (Seq r s) =
     (if nullable r then Alt (Seq (deriv a r) s) (deriv a s) else Seq (deriv a r) s)"
| "deriv a (Star r) = Seq (deriv a r) (Star r)"

text \<open>\<open>matches r s\<close>: the whole of \<open>s\<close> matches \<open>r\<close>.\<close>

fun matches :: "rexp \<Rightarrow> string \<Rightarrow> bool" where
  "matches r [] = nullable r"
| "matches r (a # s) = matches (deriv a r) s"

text \<open>
  \<open>searchToEnd r s\<close> is \<open>!!/r$/.exec(s)\<close>: the search tries every start position, and the
  \<open>$\<close> (no multiline flag) lets a match end only at the end of the input.
\<close>

fun searchToEnd :: "rexp \<Rightarrow> string \<Rightarrow> bool" where
  "searchToEnd r [] = matches r []"
| "searchToEnd r (a # s) = (matches r (a # s) \<or> searchToEnd r s)"

text \<open>The pattern \<open>-[a-f0-9]+-yalc\<close> of line 16.\<close>

definition hexClass :: "char list" where
  "hexClass = ''abcdef0123456789''"

definition yalcPattern :: rexp where
  "yalcPattern = Seq (Chr CHR ''-'') (Seq (Plus (Cls hexClass)) (Lit ''-yalc''))"

text \<open>The language of a regular expression, for stating what the matcher computes.\<close>

inductive_set star :: "string set \<Rightarrow> string set" for A :: "string set" where
  star_Nil: "[] \<in> star A"
| star_app: "u \<in> A \<Longrightarrow> v \<in> star A \<Longrightarrow> u @ v \<in> star A"

fun lang :: "rexp \<Rightarrow> string set" where
  "lang Zero = {}"
| "lang One = {[]}"
| "lang (Chr c) = {[c]}"
| "lang (Cls cs) = {[c] | c. c \<in> set cs}"
| "lang (Alt r s) = lang r \<union> lang s"
| "lang (Seq r s) = {u @ v | u v. u \<in> lang r \<and> v \<in> lang s}"
| "lang (Star r) = star (lang r)"

section \<open>Classification: getAllNestedPeerDependencies\<close>

text \<open>
  Lines 13-19. \<open>installedVersion ? semver.satisfies(installedVersion, dep.version) : false\<close>
  calls the library only for a truthy installed version; a throw of the library leaves
  the function.
\<close>

definition applySemverInformation :: "'w env \<Rightarrow> 'w \<Rightarrow> Dependency \<Rightarrow> error + Dependency" where
  "applySemverInformation env w dep =
     (let iv = getInstalledVersion env w dep
      in case (case iv of
                 None \<Rightarrow> Inr False
               | Some v \<Rightarrow> if v = [] then Inr False else satisfies env v (version dep)) of
           Inl e \<Rightarrow> Inl e
         | Inr sat \<Rightarrow>
             Inr (dep\<lparr>installedVersion := iv, semverSatisfies := sat,
                      isYalc := searchToEnd yalcPattern (toString iv)\<rparr>))"

text \<open>\<open>Array.prototype.map\<close> with a callback that may throw: the first throw ends the map.\<close>

fun mapE :: "('a \<Rightarrow> error + 'b) \<Rightarrow> 'a list \<Rightarrow> error + 'b list" where
  "mapE f [] = Inr []"
| "mapE f (x # xs) =
     (case f x of
        Inl e \<Rightarrow> Inl e
      | Inr y \<Rightarrow> (case mapE f xs of Inl e \<Rightarrow> Inl e | Inr ys \<Rightarrow> Inr (y # ys)))"

definition getAllNestedPeerDependencies :: "'w env \<Rightarrow> CliOptions \<Rightarrow> 'w \<Rightarrow> error + Dependency list" where
  "getAllNestedPeerDependencies env options w =
     mapE (applySemverInformation env w) (gatherPeerDependencies env w options)"

section \<open>Output, process state and outcomes\<close>

text \<open>
  What the process prints, one constructor for each \<open>console.log\<close> or \<open>console.error\<close> of
  the file:
  \<^item> \<open>Status\<close>: a per-record status line of lines 26-52, with the order it is printed for
    and its mark (satisfied, installed via yalc, wrong version installed, not installed);
  \<^item> \<open>AllMet\<close>: line 122; \<open>AllMetAfterInstall\<close>: line 93;
  \<^item> \<open>Blank\<close>: \<open>console.log()\<close>; \<open>BlankErr\<close>: \<open>console.error()\<close>;
  \<^item> \<open>Searching\<close>: line 57;
  \<^item> \<open>NoSolution n rs\<close>: line 68 on stderr, "Unable to find a version of n that satisfies
    the following peerDependencies:" followed by \<open>rs\<close> joined with " and ";
  \<^item> \<open>Installing\<close>: line 80; \<open>Command c\<close>: line 83; \<open>FoundNew n\<close>: line 97;
  \<^item> \<open>RecursionLimit\<close>: line 101 on stderr;
  \<^item> \<open>InstallUsing many\<close>: line 138, \<open>many\<close> when there is more than one command;
    \<open>Plain c\<close>: line 140; \<open>InstallHint\<close>: line 144.
\<close>

datatype reportOrder = ByDepender | ByDependee

datatype mark = Satisfied | ViaYalc | WrongVersion | NotInstalled

datatype event =
  Status reportOrder mark Dependency
  | AllMet
  | AllMetAfterInstall
  | Blank
  | BlankErr
  | Searching
  | NoSolution string "string list"
  | Installing
  | Command string
  | FoundNew nat
  | RecursionLimit
  | InstallUsing bool
  | Plain string
  | InstallHint

fun isStatus :: "event \<Rightarrow> bool" where
  "isStatus (Status ord m dep) = True"
| "isStatus e = False"

fun isNoSolution :: "event \<Rightarrow> bool" where
  "isNoSolution (NoSolution n rs) = True"
| "isNoSolution e = False"

text \<open>
  The state the file changes: the disk (through \<open>exec\<close>), the module variable
  \<open>recursiveCount\<close> of line 24, and what has been printed.
\<close>

record 'w state =
  world :: 'w
  recursiveCount :: nat
  printed :: "event list"

definition logs :: "event list \<Rightarrow> 'w state \<Rightarrow> 'w state" where
  "logs evs st = st\<lparr>printed := printed st @ evs\<rparr>"

text \<open>
  How a call ends: it returns, it calls \<open>process.exit(code)\<close>, or an exception leaves it.
  A Node process whose main module returns ends with status 0, and with status 1 on an
  uncaught exception.
\<close>

datatype outcome = Return | Exit int | Uncaught error

fun exitStatus :: "outcome \<Rightarrow> int" where
  "exitStatus Return = 0"
| "exitStatus (Exit code) = code"
| "exitStatus (Uncaught e) = 1"

section \<open>Reporting\<close>

text \<open>
  \<open>Array.prototype.sort(compareFn)\<close> is a stable sort (ECMAScript 2019): an element moves
  in front of another only when \<open>compareFn\<close> orders it strictly before. For a consistent
  comparator that fixes the result, which insertion from the right computes.
\<close>

fun insertSorted :: "('a \<Rightarrow> 'a \<Rightarrow> int) \<Rightarrow> 'a \<Rightarrow> 'a list \<Rightarrow> 'a list" where
  "insertSorted cmp x [] = [x]"
| "insertSorted cmp x (y # ys) =
     (if cmp x y \<le> 0 then x # y # ys else y # insertSorted cmp x ys)"

fun sortArray :: "('a \<Rightarrow> 'a \<Rightarrow> int) \<Rightarrow> 'a list \<Rightarrow> 'a list" where
  "sortArray cmp [] = []"
| "sortArray cmp (x # xs) = insertSorted cmp x (sortArray cmp xs)"

text \<open>The comparators of lines 112 and 115, and the keys they compare.\<close>

definition dependerKey :: "Dependency \<Rightarrow> string" where
  "dependerKey a = depender a @ name a"

definition dependeeKey :: "Dependency \<Rightarrow> string" where
  "dependeeKey a = name a @ depender a"

definition compareByDepender :: "'w env \<Rightarrow> Dependency \<Rightarrow> Dependency \<Rightarrow> int" where
  "compareByDepender env a b = localeCompare env (dependerKey a) (dependerKey b)"

definition compareByDependee :: "'w env \<Rightarrow> Dependency \<Rightarrow> Dependency \<Rightarrow> int" where
  "compareByDependee env a b = localeCompare env (dependeeKey a) (dependeeKey b)"

text \<open>Lines 26-38 and 40-52: what one record prints.\<close>

definition reportPeerDependencyStatusByDepender :: "Dependency \<Rightarrow> CliOptions \<Rightarrow> event list" where
  "reportPeerDependencyStatusByDepender dep options =
     (if semverSatisfies dep then
        (if verbose options then [Status ByDepender Satisfied dep] else [])
      else if isYalc dep then [Status ByDepender ViaYalc dep]
      else if truthy (installedVersion dep) then [Status ByDepender WrongVersion dep]
      else [Status ByDepender NotInstalled dep])"

definition reportPeerDependencyStatusByDependee :: "Dependency \<Rightarrow> CliOptions \<Rightarrow> event list" where
  "reportPeerDependencyStatusByDependee dep options =
     (if semverSatisfies dep then
        (if verbose options then [Status ByDependee Satisfied dep] else [])
      else if isYalc dep then [Status ByDependee ViaYalc dep]
      else if truthy (installedVersion dep) then [Status ByDependee WrongVersion dep]
      else [Status ByDependee NotInstalled dep])"

text \<open>
  Lines 111-117. The sort is in place: \<open>sortForReport\<close> is the array
  \<open>allNestedPeerDependencies\<close> as the rest of \<open>checkPeerDependencies\<close> sees it, and
  \<open>reportStatus\<close> is what the two \<open>forEach\<close> print for it.
\<close>

definition sortForReport :: "'w env \<Rightarrow> CliOptions \<Rightarrow> Dependency list \<Rightarrow> Dependency list" where
  "sortForReport env options deps =
     (if orderBy options = ''depender'' then sortArray (compareByDepender env) deps
      else if orderBy options = ''dependee'' then sortArray (compareByDependee env) deps
      else deps)"

definition reportStatus :: "CliOptions \<Rightarrow> Dependency list \<Rightarrow> event list" where
  "reportStatus options deps =
     (if orderBy options = ''depender'' then
        concat (map (\<lambda>dep. reportPeerDependencyStatusByDepender dep options) deps)
      else if orderBy options = ''dependee'' then
        concat (map (\<lambda>dep. reportPeerDependencyStatusByDependee dep options) deps)
      else [])"

section \<open>Resolving\<close>

text \<open>
  Lines 66-67: the ranges declared for a package name, each kept at its first occurrence
  (\<open>acc.includes(dep.version) ? acc : acc.concat(dep.version)\<close>).
\<close>

definition peerDepRanges :: "string \<Rightarrow> Dependency list \<Rightarrow> string list" where
  "peerDepRanges n allNestedPeerDependencies =
     foldl (\<lambda>acc dep. if version dep \<in> set acc then acc else acc @ [version dep]) []
       (filter (\<lambda>dep. name dep = n) allNestedPeerDependencies)"

text \<open>Lines 55-77. The result is the state after printing and the two lists returned.\<close>

definition findSolutions ::
  "'w env \<Rightarrow> Dependency list \<Rightarrow> Dependency list \<Rightarrow> 'w state
     \<Rightarrow> 'w state \<times> Resolution list \<times> Resolution list" where
  "findSolutions env problems allNestedPeerDependencies st =
     (let st1 = logs [Blank, Searching, Blank] st;
          resolutions = findPossibleResolutions env (world st) problems allNestedPeerDependencies;
          resolutionsWithSolutions = filter (\<lambda>r. truthy (resolution r)) resolutions;
          nosolution = filter (\<lambda>r. \<not> truthy (resolution r)) resolutions;
          st2 = logs (map (\<lambda>solution.
                   NoSolution (name (problem solution))
                     (peerDepRanges (name (problem solution)) allNestedPeerDependencies))
                 nosolution) st1;
          st3 = (if length nosolution > 0 then logs [BlankErr] st2 else st2)
      in (st3, resolutionsWithSolutions, nosolution))"

section \<open>The re-verification loop\<close>

text \<open>
  \<open>checkPeerDependencies\<close> and \<open>installPeerDependencies\<close> call each other in tail position
  (\<open>return installPeerDependencies(...)\<close>, \<open>return checkPeerDependencies(...)\<close>). Each is
  modelled by its body up to that call, \<open>checkBody\<close> and \<open>installBody\<close>, whose result says
  how the body ended: with an outcome, or with the call it makes and the arguments.
\<close>

datatype 'w checkNext =
  CheckDone outcome "'w state"
  | ToInstall "string list" "Resolution list" "'w state"

datatype 'w installNext =
  InstallDone outcome "'w state"
  | ToCheck "'w state"

text \<open>Lines 82-86: print and run one command.\<close>

definition runCommand :: "'w env \<Rightarrow> 'w state \<Rightarrow> string \<Rightarrow> 'w state" where
  "runCommand env st command =
     logs [Blank] ((logs [Command command] st)\<lparr>world := exec env command (world st)\<rparr>)"

text \<open>Lines 88-90.\<close>

definition newUnsatisfiedDeps ::
  "'w env \<Rightarrow> Resolution list \<Rightarrow> Dependency list \<Rightarrow> Dependency list" where
  "newUnsatisfiedDeps env nosolution deps =
     filter (\<lambda>dep. \<not> list_ex (\<lambda>x. isSameDep env (problem x) dep) nosolution)
       (filter (\<lambda>dep. \<not> semverSatisfies dep) deps)"

text \<open>Lines 79-106.\<close>

definition installBody ::
  "'w env \<Rightarrow> string list \<Rightarrow> CliOptions \<Rightarrow> Resolution list \<Rightarrow> 'w state \<Rightarrow> 'w installNext" where
  "installBody env commandLines options nosolution st =
     (let st1 = foldl (runCommand env) (logs [Installing, Blank] st) commandLines
      in case getAllNestedPeerDependencies env options (world st1) of
           Inl e \<Rightarrow> InstallDone (Uncaught e) st1
         | Inr deps \<Rightarrow>
             (let new = newUnsatisfiedDeps env nosolution deps;
                  st2 = (if length nosolution = 0 \<and> length new = 0
                         then logs [AllMetAfterInstall] st1 else st1)
              in if length new > 0 then
                   (let st3 = logs [FoundNew (length new)] st2;
                        st4 = st3\<lparr>recursiveCount := recursiveCount st3 + 1\<rparr>
                    in if recursiveCount st4 < 5 then ToCheck st4
                       else InstallDone (Exit 5) (logs [RecursionLimit] st4))
                 else InstallDone Return st2))"

text \<open>
  Lines 119-147 of \<open>checkPeerDependencies\<close>: what follows the report, for the array
  \<open>allNestedPeerDependencies\<close> as the report left it.
\<close>

definition checkRest ::
  "'w env \<Rightarrow> string \<Rightarrow> CliOptions \<Rightarrow> Dependency list \<Rightarrow> 'w state \<Rightarrow> 'w checkNext" where
  "checkRest env packageManager options allNestedPeerDependencies st =
     (let problems = filter (\<lambda>dep. \<not> semverSatisfies dep \<and> \<not> isYalc dep)
                       allNestedPeerDependencies
      in if length problems = 0 then CheckDone Return (logs [AllMet] st)
         else if install options then
           (case findSolutions env problems allNestedPeerDependencies st of
              (st2, resolutionsWithSolutions, nosolution) \<Rightarrow>
                (let commandLines = getCommandLines env packageManager resolutionsWithSolutions
                 in if length commandLines > 0 then ToInstall commandLines nosolution st2
                    else CheckDone (Exit 1) st2))
         else if findSolutionsOpt options then
           (case findSolutions env problems allNestedPeerDependencies st of
              (st2, resolutionsWithSolutions, nosolution) \<Rightarrow>
                (let commandLines = getCommandLines env packageManager resolutionsWithSolutions
                 in CheckDone (Exit 1)
                      (if length commandLines > 0 then
                         logs ([InstallUsing (length commandLines > 1), Blank]
                               @ map Plain commandLines @ [Blank]) st2
                       else st2)))
         else CheckDone (Exit 1) (logs [InstallHint] st))"

text \<open>Lines 108-148: classify, sort and report (lines 109-117), then the rest.\<close>

definition checkBody :: "'w env \<Rightarrow> string \<Rightarrow> CliOptions \<Rightarrow> 'w state \<Rightarrow> 'w checkNext" where
  "checkBody env packageManager options st =
     (case getAllNestedPeerDependencies env options (world st) of
        Inl e \<Rightarrow> CheckDone (Uncaught e) st
      | Inr gathered \<Rightarrow>
          (let allNestedPeerDependencies = sortForReport env options gathered
           in checkRest env packageManager options allNestedPeerDependencies
                (logs (reportStatus options allNestedPeerDependencies) st)))"

text \<open>The state in which a body ended.\<close>

fun stateOf :: "'w checkNext \<Rightarrow> 'w state" where
  "stateOf (CheckDone oc st) = st"
| "stateOf (ToInstall commandLines nosolution st) = st"

function checkPeerDependencies ::
    "'w env \<Rightarrow> string \<Rightarrow> CliOptions \<Rightarrow> 'w state \<Rightarrow> outcome \<times> 'w state"
  and installPeerDependencies ::
    "'w env \<Rightarrow> string list \<Rightarrow> CliOptions \<Rightarrow> Resolution list \<Rightarrow> string \<Rightarrow> 'w state
       \<Rightarrow> outcome \<times> 'w state" where
  "checkPeerDependencies env packageManager options st =
     (case checkBody env packageManager options st of
        CheckDone oc st' \<Rightarrow> (oc, st')
      | ToInstall commandLines nosolution st' \<Rightarrow>
          installPeerDependencies env commandLines options nosolution packageManager st')"
| "installPeerDependencies env commandLines options nosolution packageManager st =
     (case installBody env commandLines options nosolution st of
        InstallDone oc st' \<Rightarrow> (oc, st')
      | ToCheck st' \<Rightarrow> checkPeerDependencies env packageManager options st')"
  by pat_completeness auto
termination
proof (relation "measure (\<lambda>c. case c of
          Inl (env, pm, options, st) \<Rightarrow> 2 * (5 - recursiveCount st) + 1
        | Inr (env, cl, options, nosol, pm, st) \<Rightarrow> 2 * (5 - recursiveCount st))")
  show "wf (measure (\<lambda>c. case c of
          Inl (env :: 'w env, pm :: string, options :: CliOptions, st :: 'w state) \<Rightarrow>
            2 * (5 - recursiveCount st) + 1
        | Inr (env, cl :: string list, options, nosol :: Resolution list, pm, st) \<Rightarrow>
            2 * (5 - recursiveCount st)))"
    by simp
next
  fix env :: "'w env" and packageManager options and st st' :: "'w state"
    and commandLines nosolution
  assume "checkBody env packageManager options st = ToInstall commandLines nosolution st'"
  then have "recursiveCount st' = recursiveCount st"
    by (auto simp: checkBody_def checkRest_def findSolutions_def logs_def Let_def
          split: sum.splits if_splits prod.splits)
  then show "(Inr (env, commandLines, options, nosolution, packageManager, st'),
              Inl (env, packageManager, options, st))
         \<in> measure (\<lambda>c. case c of
              Inl (env, pm, options, st) \<Rightarrow> 2 * (5 - recursiveCount st) + 1
            | Inr (env, cl, options, nosol, pm, st) \<Rightarrow> 2 * (5 - recursiveCount st))"
    by simp
next
  fix env :: "'w env" and commandLines options nosolution and packageManager :: string
    and st st' :: "'w state"
  assume "installBody env commandLines options nosolution st = ToCheck st'"
  then have "recursiveCount st' < 5"
    and "recursiveCount st' =
         Suc (recursiveCount (foldl (runCommand env) (logs [Installing, Blank] st) commandLines))"
    by (auto simp: installBody_def logs_def Let_def split: sum.splits if_splits)
  moreover have "recursiveCount (foldl (runCommand env) s commandLines) = recursiveCount s" for s
    by (induction commandLines arbitrary: s) (simp_all add: runCommand_def logs_def)
  ultimately have "recursiveCount st' < 5" and "recursiveCount st' = Suc (recursiveCount st)"
    by (simp_all add: logs_def)
  then show "(Inl (env, packageManager, options, st'),
              Inr (env, commandLines, options, nosolution, packageManager, st))
         \<in> measure (\<lambda>c. case c of
              Inl (env, pm, options, st) \<Rightarrow> 2 * (5 - recursiveCount st) + 1
            | Inr (env, cl, options, nosol, pm, st) \<Rightarrow> 2 * (5 - recursiveCount st))"
    by simp
qed

text \<open>
  The passes of a run: the states in which the run enters \<open>checkPeerDependencies\<close>, first
  the state it starts in, then the state of every recursive call of line 99.
\<close>

function checkStates :: "'w env \<Rightarrow> string \<Rightarrow> CliOptions \<Rightarrow> 'w state \<Rightarrow> 'w state list" where
  "checkStates env packageManager options st =
     st # (case checkBody env packageManager options st of
             CheckDone oc st' \<Rightarrow> []
           | ToInstall commandLines nosolution st1 \<Rightarrow>
               (case installBody env commandLines options nosolution st1 of
                  InstallDone oc st' \<Rightarrow> []
                | ToCheck st2 \<Rightarrow> checkStates env packageManager options st2))"
  by pat_completeness auto
termination
proof (relation "measure (\<lambda>(env, pm, options, st). 5 - recursiveCount st)")
  show "wf (measure (\<lambda>(env :: 'w env, pm :: string, options :: CliOptions, st :: 'w state).
          5 - recursiveCount st))"
    by simp
next
  fix env :: "'w env" and packageManager options and st st1 st2 :: "'w state"
    and commandLines nosolution
  assume c: "checkBody env packageManager options st = ToInstall commandLines nosolution st1"
    and i: "installBody env commandLines options nosolution st1 = ToCheck st2"
  from c have "recursiveCount st1 = recursiveCount st"
    by (auto simp: checkBody_def checkRest_def findSolutions_def logs_def Let_def
          split: sum.splits if_splits prod.splits)
  moreover from i have "recursiveCount st2 < 5"
    and "recursiveCount st2 =
         Suc (recursiveCount (foldl (runCommand env) (logs [Installing, Blank] st1) commandLines))"
    by (auto simp: installBody_def logs_def Let_def split: sum.splits if_splits)
  moreover have "recursiveCount (foldl (runCommand env) s commandLines) = recursiveCount s" for s
    by (induction commandLines arbitrary: s) (simp_all add: runCommand_def logs_def)
  ultimately have "recursiveCount st2 < 5" and "recursiveCount st2 = Suc (recursiveCount st)"
    by (simp_all add: logs_def)
  then show "((env, packageManager, options, st2), (env, packageManager, options, st))
         \<in> measure (\<lambda>(env, pm, options, st). 5 - recursiveCount st)"
    by simp
qed

text \<open>
  A pass that goes on to \<open>installPeerDependencies\<close> and whose re-verification, after the
  commands, leaves at least one new unsatisfied record.
\<close>

definition installsAndLeavesNew :: "'w env \<Rightarrow> string \<Rightarrow> CliOptions \<Rightarrow> 'w state \<Rightarrow> bool" where
  "installsAndLeavesNew env packageManager options st =
     (case checkBody env packageManager options st of
        CheckDone oc st' \<Rightarrow> False
      | ToInstall commandLines nosolution st1 \<Rightarrow>
          (case getAllNestedPeerDependencies env options
                  (foldl (\<lambda>w c. exec env c w) (world st1) commandLines) of
             Inl e \<Rightarrow> False
           | Inr deps \<Rightarrow> newUnsatisfiedDeps env nosolution deps \<noteq> []))"

section \<open>Notions of the specification\<close>

text \<open>
  The specification asks for the ranges "deduplicated and in first-seen order": every
  element once, at the place of its first occurrence.
\<close>

fun firstSeen :: "'a list \<Rightarrow> 'a list" where
  "firstSeen [] = []"
| "firstSeen (x # xs) = x # firstSeen (filter (\<lambda>y. y \<noteq> x) xs)"

text \<open>
  What \<open>Array.prototype.sort\<close> needs of its comparator for the result to be determined
  (ECMAScript's consistent comparator, as far as it is used here): any two strings are
  comparable, and the order is transitive.
\<close>

definition consistentComparator :: "(string \<Rightarrow> string \<Rightarrow> int) \<Rightarrow> bool" where
  "consistentComparator cmp \<longleftrightarrow>
     (\<forall>a b. cmp a b \<le> 0 \<or> cmp b a \<le> 0) \<and>
     (\<forall>a b c. cmp a b \<le> 0 \<and> cmp b c \<le> 0 \<longrightarrow> cmp a c \<le> 0)"

text \<open>
  \<open>ys\<close> is \<open>xs\<close> sorted by the key \<open>key\<close> under the comparator \<open>cmp\<close>, stably: the same
  records, in non-descending order of their keys, and the records of any one key in the
  order they had in \<open>xs\<close>.
\<close>

definition stablySortedBy ::
  "(string \<Rightarrow> string \<Rightarrow> int) \<Rightarrow> (Dependency \<Rightarrow> string) \<Rightarrow> Dependency list \<Rightarrow> Dependency list \<Rightarrow> bool" where
  "stablySortedBy cmp key xs ys \<longleftrightarrow>
     mset ys = mset xs \<and>
     sorted_wrt (\<lambda>a b. cmp (key a) (key b) \<le> 0) ys \<and>
     (\<forall>k. filter (\<lambda>d. key d = k) ys = filter (\<lambda>d. key d = k) xs)"

section \<open>Example projects\<close>

text \<open>
  Concrete collaborators, for running the program on examples. The disk is the number of
  install commands run so far; a project says what is gathered and what is installed
  after that many commands, and which version the registry offers for a package.
\<close>

text \<open>Comparison of strings by character code, the order of \<open>localeCompare\<close> on ASCII
  lower-case package names.\<close>

fun codeUnitCompare :: "string \<Rightarrow> string \<Rightarrow> int" where
  "codeUnitCompare [] [] = 0"
| "codeUnitCompare [] (b # bs) = - 1"
| "codeUnitCompare (a # as) [] = 1"
| "codeUnitCompare (a # as) (b # bs) =
     (if (of_char a :: nat) < of_char b then - 1
      else if (of_char b :: nat) < of_char a then 1
      else codeUnitCompare as bs)"

text \<open>
  A fragment of semver for the examples: a range that parses is an exact version, a
  string of the characters below, and that version only satisfies it.
\<close>

definition exactRange :: "string \<Rightarrow> bool" where
  "exactRange r = list_all (\<lambda>c. c \<in> set ''0123456789.-abcdefyl'') r"

definition exactTest :: "string \<Rightarrow> string \<Rightarrow> error + bool" where
  "exactTest v r = Inr (v = r)"

text \<open>Two records are the same edge when name, depender and range agree.\<close>

definition sameEdge :: "Dependency \<Rightarrow> Dependency \<Rightarrow> bool" where
  "sameEdge a b \<longleftrightarrow> name a = name b \<and> depender a = depender b \<and> version a = version b"

fun firstByName :: "Dependency list \<Rightarrow> Dependency list" where
  "firstByName [] = []"
| "firstByName (p # ps) = p # firstByName (filter (\<lambda>q. name q \<noteq> name p) ps)"

definition project ::
  "(nat \<Rightarrow> Dependency list) \<Rightarrow> (nat \<Rightarrow> string \<Rightarrow> string option) \<Rightarrow> (string \<Rightarrow> string option)
     \<Rightarrow> nat env" where
  "project gathered installed published =
     \<lparr>gatherPeerDependencies = (\<lambda>w options. gathered w),
      getInstalledVersion = (\<lambda>w dep. installed w (name dep)),
      validRange = exactRange,
      rangeTest = exactTest,
      isSameDep = sameEdge,
      findPossibleResolutions = (\<lambda>w problems deps.
        map (\<lambda>p. \<lparr>problem = p, resolution = published (name p)\<rparr>) (firstByName problems)),
      getCommandLines = (\<lambda>packageManager resolutions.
        map (\<lambda>r. packageManager @ '' install '' @ name (problem r) @ ''@''
                    @ toString (resolution r)) resolutions),
      exec = (\<lambda>command w. Suc w),
      localeCompare = codeUnitCompare\<rparr>"

definition requires :: "string \<Rightarrow> string \<Rightarrow> string \<Rightarrow> Dependency" where
  "requires d n r =
     \<lparr>name = n, version = r, depender = d, dependerVersion = ''1.0.0'',
      installedVersion = None, semverSatisfies = False, isYalc = False\<rparr>"

definition startState :: "nat state" where
  "startState = \<lparr>world = 0, recursiveCount = 0, printed = []\<rparr>"

definition installOptions :: CliOptions where
  "installOptions = \<lparr>verbose = False, orderBy = ''depender'', install = True, findSolutionsOpt = False\<rparr>"

definition solveOptions :: CliOptions where
  "solveOptions = \<lparr>verbose = False, orderBy = ''depender'', install = False, findSolutionsOpt = True\<rparr>"

definition quietOptions :: CliOptions where
  "quietOptions = \<lparr>verbose = True, orderBy = ''none'', install = False, findSolutionsOpt = False\<rparr>"

text \<open>A project with a satisfied record, a wrong version, two yalc installs (one
  satisfying its range), a package that is not installed and a malformed range.\<close>

definition mixedProject :: "nat env" where
  "mixedProject = project
     (\<lambda>w. [requires ''app'' ''react'' ''17.0.2'', requires ''app'' ''lodash'' ''4.17.21'',
           requires ''app'' ''kit'' ''2.0.0-ab12-yalc'', requires ''app'' ''router'' ''5.0.0'',
           requires ''app'' ''pad'' ''>>1'', requires ''app'' ''moment'' ''2.0.0''])
     (\<lambda>w. [''react'' \<mapsto> ''17.0.2'', ''lodash'' \<mapsto> ''3.0.0'', ''kit'' \<mapsto> ''2.0.0-ab12-yalc'',
           ''router'' \<mapsto> ''5.0.0-9f3c-yalc'', ''pad'' \<mapsto> ''1.0.0''])
     (\<lambda>n. None)"

text \<open>A project whose only unmet record is installed through yalc.\<close>

definition linkedProject :: "nat env" where
  "linkedProject = project
     (\<lambda>w. [requires ''app'' ''react'' ''17.0.2'', requires ''app'' ''router'' ''5.0.0''])
     (\<lambda>w. [''react'' \<mapsto> ''17.0.2'', ''router'' \<mapsto> ''5.0.0-9f3c-yalc''])
     (\<lambda>n. None)"

text \<open>A project where the install command does not help: the fitting version of
  \<open>plugin\<close> would only be on disk after ten commands.\<close>

definition lateProject :: "nat env" where
  "lateProject = project
     (\<lambda>w. [requires ''host'' ''plugin'' ''2.0.0''])
     (\<lambda>w. if w < 10 then [''plugin'' \<mapsto> ''1.0.0''] else [''plugin'' \<mapsto> ''2.0.0''])
     [''plugin'' \<mapsto> ''2.0.0'']"

text \<open>A project where installing \<open>core\<close> brings a peer dependency on \<open>runtime\<close>, of which
  the registry has no fitting version.\<close>

definition chainProject :: "nat env" where
  "chainProject = project
     (\<lambda>w. if w = 0 then [requires ''plugin'' ''core'' ''2.0.0'']
          else [requires ''plugin'' ''core'' ''2.0.0'', requires ''core'' ''runtime'' ''3.0.0''])
     (\<lambda>w. if w = 0 then [''core'' \<mapsto> ''1.0.0'', ''runtime'' \<mapsto> ''1.0.0'']
          else [''core'' \<mapsto> ''2.0.0'', ''runtime'' \<mapsto> ''1.0.0''])
     [''core'' \<mapsto> ''2.0.0'']"

text \<open>A project with one resolvable package and one without solution.\<close>

definition partlyProject :: "nat env" where
  "partlyProject = project
     (\<lambda>w. [requires ''app'' ''react'' ''17.0.2'', requires ''app'' ''legacy'' ''0.0.1''])
     (\<lambda>w. if w = 0 then [''react'' \<mapsto> ''16.0.0'', ''legacy'' \<mapsto> ''1.0.0'']
          else [''react'' \<mapsto> ''17.0.2'', ''legacy'' \<mapsto> ''1.0.0''])
     [''react'' \<mapsto> ''17.0.2'']"

text \<open>A project whose two dependers ask for disjoint ranges of \<open>core\<close>; the gatherer
  lists \<open>zeta\<close> before \<open>alpha\<close>.\<close>

definition conflictProject :: "nat env" where
  "conflictProject = project
     (\<lambda>w. [requires ''zeta'' ''core'' ''2.0.0'', requires ''alpha'' ''core'' ''1.0.0''])
     (\<lambda>w. [''core'' \<mapsto> ''3.0.0''])
     (\<lambda>n. None)"

text \<open>The records of \<open>mixedProject\<close> as classification annotates them.\<close>

definition mixedClassified :: "Dependency list" where
  "mixedClassified =
     [(requires ''app'' ''react'' ''17.0.2'')
        \<lparr>installedVersion := Some ''17.0.2'', semverSatisfies := True, isYalc := False\<rparr>,
      (requires ''app'' ''lodash'' ''4.17.21'')
        \<lparr>installedVersion := Some ''3.0.0'', semverSatisfies := False, isYalc := False\<rparr>,
      (requires ''app'' ''kit'' ''2.0.0-ab12-yalc'')
        \<lparr>installedVersion := Some ''2.0.0-ab12-yalc'', semverSatisfies := True, isYalc := True\<rparr>,
      (requires ''app'' ''router'' ''5.0.0'')
        \<lparr>installedVersion := Some ''5.0.0-9f3c-yalc'', semverSatisfies := False, isYalc := True\<rparr>,
      (requires ''app'' ''pad'' ''>>1'')
        \<lparr>installedVersion := Some ''1.0.0'', semverSatisfies := False, isYalc := False\<rparr>,
      (requires ''app'' ''moment'' ''2.0.0'')
        \<lparr>installedVersion := None, semverSatisfies := False, isYalc := False\<rparr>]"

text \<open>Five records in the order a gatherer may list them.\<close>

definition sampleRecords :: "Dependency list" where
  "sampleRecords =
     [requires ''zeta'' ''core'' ''2.0.0'', requires ''alpha'' ''core'' ''1.0.0'',
      requires ''zeta'' ''core'' ''3.0.0'', requires ''alpha'' ''core'' ''4.0.0'',
      requires ''mid'' ''base'' ''1.0.0'']"

text \<open>The records of \<open>partlyProject\<close> as classified after one install command, and the
  resolution without a version that \<open>legacy\<close> gets before it.\<close>

definition partlyAfter :: "Dependency list" where
  "partlyAfter =
     [(requires ''app'' ''react'' ''17.0.2'')
        \<lparr>installedVersion := Some ''17.0.2'', semverSatisfies := True\<rparr>,
      (requires ''app'' ''legacy'' ''0.0.1'')\<lparr>installedVersion := Some ''1.0.0''\<rparr>]"

definition legacyNoSolution :: Resolution where
  "legacyNoSolution =
     \<lparr>problem = (requires ''app'' ''legacy'' ''0.0.1'')\<lparr>installedVersion := Some ''1.0.0''\<rparr>,
      resolution = None\<rparr>"

text \<open>The records of \<open>linkedProject\<close> as classified.\<close>

definition linkedClassified :: "Dependency list" where
  "linkedClassified =
     [(requires ''app'' ''react'' ''17.0.2'')
        \<lparr>installedVersion := Some ''17.0.2'', semverSatisfies := True\<rparr>,
      (requires ''app'' ''router'' ''5.0.0'')
        \<lparr>installedVersion := Some ''5.0.0-9f3c-yalc'', isYalc := True\<rparr>]"

text \<open>The records of \<open>chainProject\<close> as classified after one install command.\<close>

definition chainAfter :: "Dependency list" where
  "chainAfter =
     [(requires ''plugin'' ''core'' ''2.0.0'')
        \<lparr>installedVersion := Some ''2.0.0'', semverSatisfies := True\<rparr>,
      (requires ''core'' ''runtime'' ''3.0.0'')\<lparr>installedVersion := Some ''1.0.0''\<rparr>]"

text \<open>The records of \<open>conflictProject\<close> as classified, in gathered order.\<close>

definition conflictClassified :: "Dependency list" where
  "conflictClassified =
     [(requires ''zeta'' ''core'' ''2.0.0'')\<lparr>installedVersion := Some ''3.0.0''\<rparr>,
      (requires ''alpha'' ''core'' ''1.0.0'')\<lparr>installedVersion := Some ''3.0.0''\<rparr>]"

section \<open>The matcher computes the language of the pattern\<close>

lemma star_decomp:
  "w \<in> star A \<Longrightarrow> w \<noteq> [] \<Longrightarrow> \<exists>u v. w = u @ v \<and> u \<noteq> [] \<and> u \<in> A \<and> v \<in> star A"
proof (induction rule: star.induct)
  case star_Nil
  then show ?case by simp
next
  case (star_app u v)
  show ?case
  proof (cases "u = []")
    case True
    with star_app show ?thesis by simp
  next
    case False
    with star_app show ?thesis by blast
  qed
qed

lemma nullable_lang: "nullable r \<longleftrightarrow> [] \<in> lang r"
  by (induction r) (auto intro: star_Nil)

lemma lang_SeqI: "u \<in> lang r \<Longrightarrow> v \<in> lang s \<Longrightarrow> u @ v \<in> lang (Seq r s)"
  by (simp only: lang.simps mem_Collect_eq) blast

lemma lang_SeqE: "w \<in> lang (Seq r s) \<Longrightarrow> \<exists>u v. w = u @ v \<and> u \<in> lang r \<and> v \<in> lang s"
  by (simp only: lang.simps mem_Collect_eq)

lemma lang_deriv: "w \<in> lang (deriv a r) \<longleftrightarrow> a # w \<in> lang r"
proof (induction r arbitrary: w)
  case Zero
  show ?case by simp
next
  case One
  show ?case by simp
next
  case (Chr c)
  show ?case by simp
next
  case (Cls cs)
  show ?case by auto
next
  case (Alt r s)
  then show ?case by simp
next
  case (Seq r s)
  show ?case
  proof
    assume d: "w \<in> lang (deriv a (Seq r s))"
    have "(\<exists>u v. w = u @ v \<and> a # u \<in> lang r \<and> v \<in> lang s) \<or> (nullable r \<and> a # w \<in> lang s)"
    proof (cases "nullable r")
      case True
      with d have "w \<in> lang (Seq (deriv a r) s) \<or> w \<in> lang (deriv a s)" by simp
      then show ?thesis
      proof
        assume "w \<in> lang (Seq (deriv a r) s)"
        then obtain u v where "w = u @ v" "u \<in> lang (deriv a r)" "v \<in> lang s"
          using lang_SeqE by blast
        then show ?thesis using Seq.IH(1) by blast
      next
        assume "w \<in> lang (deriv a s)"
        then show ?thesis using True Seq.IH(2) by blast
      qed
    next
      case False
      with d have "w \<in> lang (Seq (deriv a r) s)" by simp
      then obtain u v where "w = u @ v" "u \<in> lang (deriv a r)" "v \<in> lang s"
        using lang_SeqE by blast
      then show ?thesis using Seq.IH(1) by blast
    qed
    then show "a # w \<in> lang (Seq r s)"
    proof
      assume "\<exists>u v. w = u @ v \<and> a # u \<in> lang r \<and> v \<in> lang s"
      then obtain u v where uv: "w = u @ v" "a # u \<in> lang r" "v \<in> lang s" by blast
      have "(a # u) @ v \<in> lang (Seq r s)" using uv(2,3) by (rule lang_SeqI)
      then show ?thesis using uv(1) by simp
    next
      assume n: "nullable r \<and> a # w \<in> lang s"
      then have "[] \<in> lang r" by (simp add: nullable_lang)
      then have "[] @ (a # w) \<in> lang (Seq r s)" using n by (intro lang_SeqI) simp_all
      then show ?thesis by simp
    qed
  next
    assume "a # w \<in> lang (Seq r s)"
    then obtain u v where uv: "a # w = u @ v" "u \<in> lang r" "v \<in> lang s"
      using lang_SeqE by blast
    show "w \<in> lang (deriv a (Seq r s))"
    proof (cases u)
      case Nil
      with uv have n: "nullable r" and "a # w \<in> lang s" by (simp_all add: nullable_lang)
      then have "w \<in> lang (deriv a s)" using Seq.IH(2) by simp
      then show ?thesis using n by simp
    next
      case (Cons b u')
      with uv have "w = u' @ v" "a # u' \<in> lang r" by simp_all
      then have "u' \<in> lang (deriv a r)" "w = u' @ v" using Seq.IH(1) by simp_all
      then have "w \<in> lang (Seq (deriv a r) s)" using uv(3) lang_SeqI by blast
      then show ?thesis by simp
    qed
  qed
next
  case (Star r)
  show ?case
  proof
    assume "w \<in> lang (deriv a (Star r))"
    then have "w \<in> lang (Seq (deriv a r) (Star r))" by simp
    then obtain u v where uv: "w = u @ v" "u \<in> lang (deriv a r)" "v \<in> lang (Star r)"
      using lang_SeqE by blast
    then have "a # u \<in> lang r" "v \<in> star (lang r)" using Star.IH by simp_all
    then have "(a # u) @ v \<in> star (lang r)" by (rule star_app)
    then show "a # w \<in> lang (Star r)" using uv(1) by simp
  next
    assume "a # w \<in> lang (Star r)"
    then have "a # w \<in> star (lang r)" by simp
    then obtain u v where uv: "a # w = u @ v" "u \<noteq> []" "u \<in> lang r" "v \<in> star (lang r)"
      using star_decomp [of "a # w" "lang r"] by blast
    then obtain u' where u': "u = a # u'" "w = u' @ v" by (cases u) simp_all
    with uv have "u' \<in> lang (deriv a r)" "v \<in> lang (Star r)" using Star.IH by simp_all
    then have "u' @ v \<in> lang (Seq (deriv a r) (Star r))" by (rule lang_SeqI)
    then show "w \<in> lang (deriv a (Star r))" using u'(2) by simp
  qed
qed

lemma matches_lang: "matches r w \<longleftrightarrow> w \<in> lang r"
  by (induction w arbitrary: r) (simp_all add: nullable_lang lang_deriv)

lemma searchToEnd_lang: "searchToEnd r w \<longleftrightarrow> (\<exists>base m. w = base @ m \<and> m \<in> lang r)"
proof (induction w)
  case Nil
  then show ?case by (simp add: matches_lang)
next
  case (Cons a w)
  show ?case
  proof
    assume "searchToEnd r (a # w)"
    then consider "a # w \<in> lang r" | base m where "w = base @ m" "m \<in> lang r"
      using Cons by (auto simp: matches_lang lang_deriv)
    then show "\<exists>base m. a # w = base @ m \<and> m \<in> lang r"
    proof cases
      case 1 then show ?thesis by (metis append_Nil)
    next
      case 2 then show ?thesis by (metis append_Cons)
    qed
  next
    assume "\<exists>base m. a # w = base @ m \<and> m \<in> lang r"
    then obtain base m where bm: "a # w = base @ m" "m \<in> lang r" by blast
    show "searchToEnd r (a # w)"
    proof (cases base)
      case Nil
      with bm have "a # w \<in> lang r" by simp
      then show ?thesis by (simp add: matches_lang lang_deriv)
    next
      case (Cons b base') with bm show ?thesis using Cons.IH by auto
    qed
  qed
qed

lemma lang_Lit: "lang (Lit s) = {s}"
  by (induction s) auto

lemma star_Cls: "w \<in> star {[c] | c. c \<in> S} \<longleftrightarrow> set w \<subseteq> S"
proof
  show "w \<in> star {[c] | c. c \<in> S} \<Longrightarrow> set w \<subseteq> S"
    by (induction rule: star.induct) auto
next
  show "set w \<subseteq> S \<Longrightarrow> w \<in> star {[c] | c. c \<in> S}"
  proof (induction w)
    case Nil show ?case by (rule star_Nil)
  next
    case (Cons a w)
    then have "[a] \<in> {[c] | c. c \<in> S}" "w \<in> star {[c] | c. c \<in> S}" by auto
    then have "[a] @ w \<in> star {[c] | c. c \<in> S}" by (rule star_app)
    then show ?case by simp
  qed
qed

lemma lang_Plus_Cls: "lang (Plus (Cls cs)) = {h. h \<noteq> [] \<and> set h \<subseteq> set cs}"
proof (rule set_eqI)
  fix h
  show "h \<in> lang (Plus (Cls cs)) \<longleftrightarrow> h \<in> {h. h \<noteq> [] \<and> set h \<subseteq> set cs}"
  proof (cases h)
    case Nil
    then show ?thesis by (simp add: Plus_def)
  next
    case (Cons c v)
    have "h \<in> lang (Plus (Cls cs)) \<longleftrightarrow> c \<in> set cs \<and> v \<in> star {[c] | c. c \<in> set cs}"
    proof
      assume "h \<in> lang (Plus (Cls cs))"
      then obtain c' va where "c # v = [c'] @ va" "c' \<in> set cs" "va \<in> star {[c] | c. c \<in> set cs}"
        unfolding Cons Plus_def by auto
      then show "c \<in> set cs \<and> v \<in> star {[c] | c. c \<in> set cs}" by simp
    next
      assume "c \<in> set cs \<and> v \<in> star {[c] | c. c \<in> set cs}"
      then have "[c] \<in> lang (Cls cs)" "v \<in> lang (Star (Cls cs))" "h = [c] @ v"
        using Cons by simp_all
      then show "h \<in> lang (Plus (Cls cs))"
        unfolding Plus_def lang.simps(6) by blast
    qed
    then show ?thesis using Cons by (simp add: star_Cls)
  qed
qed

lemma lang_Seq_Chr: "lang (Seq (Chr c) r) = {c # v | v. v \<in> lang r}"
  by auto

lemma lang_Seq_Lit: "lang (Seq r (Lit s)) = {u @ s | u. u \<in> lang r}"
  by (auto simp: lang_Lit)

lemma lang_yalcPattern:
  "lang yalcPattern = {''-'' @ h @ ''-yalc'' | h. h \<noteq> [] \<and> set h \<subseteq> set hexClass}"
proof -
  have "lang yalcPattern = {CHR ''-'' # v | v. v \<in> {u @ ''-yalc'' | u. u \<in> {h. h \<noteq> [] \<and> set h \<subseteq> set hexClass}}}"
    by (simp only: yalcPattern_def lang_Seq_Chr lang_Seq_Lit lang_Plus_Cls)
  also have "\<dots> = {''-'' @ h @ ''-yalc'' | h. h \<noteq> [] \<and> set h \<subseteq> set hexClass}"
    by (simp only: mem_Collect_eq append_Cons append_Nil) blast
  finally show ?thesis .
qed

lemma yalc_search:
  "searchToEnd yalcPattern s \<longleftrightarrow>
     (\<exists>base h. s = base @ ''-'' @ h @ ''-yalc'' \<and> h \<noteq> [] \<and> set h \<subseteq> set hexClass)"
proof -
  have "searchToEnd yalcPattern s \<longleftrightarrow>
     (\<exists>base m. s = base @ m \<and> m \<in> {''-'' @ h @ ''-yalc'' | h. h \<noteq> [] \<and> set h \<subseteq> set hexClass})"
    by (simp only: searchToEnd_lang lang_yalcPattern)
  also have "\<dots> \<longleftrightarrow> (\<exists>base h. s = base @ ''-'' @ h @ ''-yalc'' \<and> h \<noteq> [] \<and> set h \<subseteq> set hexClass)"
    by blast
  finally show ?thesis .
qed

section \<open>Classification\<close>

lemma mapE_Inr_iff:
  "mapE f xs = Inr ys \<longleftrightarrow> list_all2 (\<lambda>x y. f x = Inr y) xs ys"
proof (induction xs arbitrary: ys)
  case Nil
  show ?case by auto
next
  case (Cons x xs)
  have IH: "list_all2 (\<lambda>x y. f x = Inr y) xs zs \<longleftrightarrow> mapE f xs = Inr zs" for zs
    using Cons.IH by simp
  show ?case
    by (cases ys) (auto simp: IH split: sum.splits)
qed

lemma classified_all2:
  "getAllNestedPeerDependencies env options w = Inr deps \<longleftrightarrow>
     list_all2 (\<lambda>g d. applySemverInformation env w g = Inr d)
       (gatherPeerDependencies env w options) deps"
  by (simp add: getAllNestedPeerDependencies_def mapE_Inr_iff)

lemma yalc_toString:
  "searchToEnd yalcPattern (toString iv) \<longleftrightarrow>
     (\<exists>v base h. iv = Some v \<and> v = base @ ''-'' @ h @ ''-yalc'' \<and> h \<noteq> [] \<and> set h \<subseteq> set hexClass)"
proof (cases iv)
  case None
  have "\<not> searchToEnd yalcPattern ''undefined''"
    by (simp add: yalcPattern_def Plus_def hexClass_def)
  with None show ?thesis by (simp add: toString_def)
next
  case (Some v)
  then show ?thesis by (simp add: toString_def yalc_search)
qed

lemma mixed_classified:
  "getAllNestedPeerDependencies mixedProject quietOptions 0 = Inr mixedClassified"
  by (simp add: getAllNestedPeerDependencies_def mixedProject_def project_def requires_def
        applySemverInformation_def satisfies_def exactRange_def exactTest_def toString_def yalcPattern_def Plus_def
        hexClass_def mixedClassified_def)

text \<open>
  C4. Every record that classification produces has \<open>isYalc\<close> true exactly when an
  installed version was found and that string ends with \<open>-\<close>, one or more characters of
  \<open>[a-f0-9]\<close>, and \<open>-yalc\<close>. Neither the range nor \<open>semverSatisfies\<close> enters the condition.
\<close>

theorem isYalc_iff_pattern:
  assumes "getAllNestedPeerDependencies env options w = Inr deps"
  shows "list_all2
           (\<lambda>g d. installedVersion d = getInstalledVersion env w g \<and>
              (isYalc d \<longleftrightarrow>
                 (\<exists>v base h. installedVersion d = Some v \<and> v = base @ ''-'' @ h @ ''-yalc'' \<and>
                    h \<noteq> [] \<and> set h \<subseteq> set ''abcdef0123456789'')))
           (gatherPeerDependencies env w options) deps"
proof -
  have "list_all2 (\<lambda>g d. applySemverInformation env w g = Inr d)
          (gatherPeerDependencies env w options) deps"
    using assms by (simp add: classified_all2)
  then show ?thesis
  proof (rule list_all2_mono)
    fix g d
    assume "applySemverInformation env w g = Inr d"
    then have "installedVersion d = getInstalledVersion env w g"
      and "isYalc d = searchToEnd yalcPattern (toString (getInstalledVersion env w g))"
      by (auto simp: applySemverInformation_def Let_def split: sum.splits)
    then show "installedVersion d = getInstalledVersion env w g \<and>
              (isYalc d \<longleftrightarrow>
                 (\<exists>v base h. installedVersion d = Some v \<and> v = base @ ''-'' @ h @ ''-yalc'' \<and>
                    h \<noteq> [] \<and> set h \<subseteq> set ''abcdef0123456789''))"
      using yalc_toString [of "getInstalledVersion env w g"] by (simp add: hexClass_def)
  qed
qed

text \<open>The theorem on \<open>mixedProject\<close>, where \<open>kit\<close> satisfies its range and is a yalc install,
  and \<open>router\<close> is a yalc install that does not.\<close>

theorem isYalc_iff_pattern_witness:
  "getAllNestedPeerDependencies mixedProject quietOptions 0 = Inr mixedClassified \<and>
   list_all2
     (\<lambda>g d. installedVersion d = getInstalledVersion mixedProject 0 g \<and>
        (isYalc d \<longleftrightarrow>
           (\<exists>v base h. installedVersion d = Some v \<and> v = base @ ''-'' @ h @ ''-yalc'' \<and>
              h \<noteq> [] \<and> set h \<subseteq> set ''abcdef0123456789'')))
     (gatherPeerDependencies mixedProject 0 quietOptions) mixedClassified \<and>
   semverSatisfies (mixedClassified ! 2) \<and> isYalc (mixedClassified ! 2) \<and>
   \<not> semverSatisfies (mixedClassified ! 3) \<and> isYalc (mixedClassified ! 3)"
proof (intro conjI)
  show "getAllNestedPeerDependencies mixedProject quietOptions 0 = Inr mixedClassified"
    by (rule mixed_classified)
  show "list_all2
     (\<lambda>g d. installedVersion d = getInstalledVersion mixedProject 0 g \<and>
        (isYalc d \<longleftrightarrow>
           (\<exists>v base h. installedVersion d = Some v \<and> v = base @ ''-'' @ h @ ''-yalc'' \<and>
              h \<noteq> [] \<and> set h \<subseteq> set ''abcdef0123456789'')))
     (gatherPeerDependencies mixedProject 0 quietOptions) mixedClassified"
    by (rule isYalc_iff_pattern [OF mixed_classified])
qed (simp_all add: mixedClassified_def)

text \<open>
  C3. Every record that classification produces has \<open>semverSatisfies\<close> true exactly when
  an installed version of its package was found (\<open>getInstalledVersion\<close> returned a
  string, and not the empty one, which JavaScript takes for absent) and
  \<open>semver.satisfies\<close> answers true for that version and the record's range.
\<close>

theorem semverSatisfies_iff:
  assumes "getAllNestedPeerDependencies env options w = Inr deps"
  shows "list_all2
           (\<lambda>g d. name d = name g \<and> version d = version g \<and>
              installedVersion d = getInstalledVersion env w g \<and>
              (semverSatisfies d \<longleftrightarrow>
                 (\<exists>v. installedVersion d = Some v \<and> v \<noteq> [] \<and>
                    satisfies env v (version d) = Inr True)))
           (gatherPeerDependencies env w options) deps"
proof -
  have "list_all2 (\<lambda>g d. applySemverInformation env w g = Inr d)
          (gatherPeerDependencies env w options) deps"
    using assms by (simp add: classified_all2)
  then show ?thesis
  proof (rule list_all2_mono)
    fix g d
    assume "applySemverInformation env w g = Inr d"
    then show "name d = name g \<and> version d = version g \<and>
              installedVersion d = getInstalledVersion env w g \<and>
              (semverSatisfies d \<longleftrightarrow>
                 (\<exists>v. installedVersion d = Some v \<and> v \<noteq> [] \<and>
                    satisfies env v (version d) = Inr True))"
      by (auto simp: applySemverInformation_def Let_def split: sum.splits option.splits if_splits)
  qed
qed

text \<open>The theorem on \<open>mixedProject\<close>: \<open>react\<close> is satisfied, \<open>lodash\<close> has a wrong version,
  \<open>moment\<close> is not installed.\<close>

theorem semverSatisfies_iff_witness:
  "getAllNestedPeerDependencies mixedProject quietOptions 0 = Inr mixedClassified \<and>
   list_all2
     (\<lambda>g d. name d = name g \<and> version d = version g \<and>
        installedVersion d = getInstalledVersion mixedProject 0 g \<and>
        (semverSatisfies d \<longleftrightarrow>
           (\<exists>v. installedVersion d = Some v \<and> v \<noteq> [] \<and>
              satisfies mixedProject v (version d) = Inr True)))
     (gatherPeerDependencies mixedProject 0 quietOptions) mixedClassified \<and>
   semverSatisfies (mixedClassified ! 0) \<and> \<not> semverSatisfies (mixedClassified ! 1) \<and>
   \<not> semverSatisfies (mixedClassified ! 5)"
proof (intro conjI)
  show "getAllNestedPeerDependencies mixedProject quietOptions 0 = Inr mixedClassified"
    by (rule mixed_classified)
  show "list_all2
     (\<lambda>g d. name d = name g \<and> version d = version g \<and>
        installedVersion d = getInstalledVersion mixedProject 0 g \<and>
        (semverSatisfies d \<longleftrightarrow>
           (\<exists>v. installedVersion d = Some v \<and> v \<noteq> [] \<and>
              satisfies mixedProject v (version d) = Inr True)))
     (gatherPeerDependencies mixedProject 0 quietOptions) mixedClassified"
    by (rule semverSatisfies_iff [OF mixed_classified])
qed (simp_all add: mixedClassified_def)

lemma mapE_append:
  "mapE f (xs @ ys) =
     (case mapE f xs of
        Inl e \<Rightarrow> Inl e
      | Inr as \<Rightarrow> (case mapE f ys of Inl e \<Rightarrow> Inl e | Inr bs \<Rightarrow> Inr (as @ bs)))"
  by (induction xs) (auto split: sum.splits)

lemma mapE_length: "mapE f xs = Inr ys \<Longrightarrow> length ys = length xs"
  by (simp add: mapE_Inr_iff list_all2_lengthD)

text \<open>
  C7. The file has no handler of its own: line 15 calls \<open>semver.satisfies\<close>, which answers
  false for a range it cannot parse and does not throw. So for a record \<open>bad\<close> whose range
  is malformed (\<open>validRange\<close> rejects it), whatever is installed, classifying \<open>bad\<close>
  returns a record with \<open>semverSatisfies\<close> false and does not throw, and the batch that
  contains \<open>bad\<close> is classified as the batch without it, with the record of \<open>bad\<close> at its
  place: if the batch throws, a different record threw.
\<close>

theorem malformed_range_not_satisfying:
  assumes "\<not> validRange env (version bad)"
    and "gatherPeerDependencies env w options = xs @ bad # ys"
  shows "\<exists>d. applySemverInformation env w bad = Inr d \<and> \<not> semverSatisfies d \<and>
           getAllNestedPeerDependencies env options w =
             (case mapE (applySemverInformation env w) (xs @ ys) of
                Inl e \<Rightarrow> Inl e
              | Inr ds \<Rightarrow> Inr (take (length xs) ds @ d # drop (length xs) ds))"
proof -
  have "applySemverInformation env w bad =
          Inr (bad\<lparr>installedVersion := getInstalledVersion env w bad, semverSatisfies := False,
                    isYalc := searchToEnd yalcPattern (toString (getInstalledVersion env w bad))\<rparr>)"
    using assms(1)
    by (simp add: applySemverInformation_def satisfies_def Let_def split: option.splits)
  then obtain d where d: "applySemverInformation env w bad = Inr d" "\<not> semverSatisfies d"
    by simp
  have "mapE (applySemverInformation env w) (xs @ bad # ys) =
          (case mapE (applySemverInformation env w) (xs @ ys) of
             Inl e \<Rightarrow> Inl e
           | Inr ds \<Rightarrow> Inr (take (length xs) ds @ d # drop (length xs) ds))"
    using d(1)
    by (auto simp: mapE_append dest: mapE_length split: sum.splits)
  with d assms(2) show ?thesis
    by (auto simp: getAllNestedPeerDependencies_def)
qed

text \<open>The theorem on \<open>mixedProject\<close>, whose record for \<open>pad\<close> has the range \<open>>>1\<close> and
  whose last record, \<open>moment\<close>, is classified after it.\<close>

theorem malformed_range_not_satisfying_witness:
  "\<not> validRange mixedProject (version (requires ''app'' ''pad'' ''>>1'')) \<and>
   gatherPeerDependencies mixedProject 0 quietOptions =
     [requires ''app'' ''react'' ''17.0.2'', requires ''app'' ''lodash'' ''4.17.21'',
      requires ''app'' ''kit'' ''2.0.0-ab12-yalc'', requires ''app'' ''router'' ''5.0.0'']
     @ requires ''app'' ''pad'' ''>>1'' # [requires ''app'' ''moment'' ''2.0.0''] \<and>
   (\<exists>d. applySemverInformation mixedProject 0 (requires ''app'' ''pad'' ''>>1'') = Inr d \<and>
      \<not> semverSatisfies d \<and>
      getAllNestedPeerDependencies mixedProject quietOptions 0 =
        (case mapE (applySemverInformation mixedProject 0)
                ([requires ''app'' ''react'' ''17.0.2'', requires ''app'' ''lodash'' ''4.17.21'',
                  requires ''app'' ''kit'' ''2.0.0-ab12-yalc'', requires ''app'' ''router'' ''5.0.0'']
                 @ [requires ''app'' ''moment'' ''2.0.0'']) of
           Inl e \<Rightarrow> Inl e
         | Inr ds \<Rightarrow>
             Inr (take (length [requires ''app'' ''react'' ''17.0.2'',
                      requires ''app'' ''lodash'' ''4.17.21'',
                      requires ''app'' ''kit'' ''2.0.0-ab12-yalc'',
                      requires ''app'' ''router'' ''5.0.0'']) ds
                  @ d # drop (length [requires ''app'' ''react'' ''17.0.2'',
                      requires ''app'' ''lodash'' ''4.17.21'',
                      requires ''app'' ''kit'' ''2.0.0-ab12-yalc'',
                      requires ''app'' ''router'' ''5.0.0'']) ds))) \<and>
   getAllNestedPeerDependencies mixedProject quietOptions 0 = Inr mixedClassified \<and>
   \<not> semverSatisfies (mixedClassified ! 4)"
proof -
  have h1: "\<not> validRange mixedProject (version (requires ''app'' ''pad'' ''>>1''))"
    by (simp add: mixedProject_def project_def requires_def exactRange_def)
  have h2: "gatherPeerDependencies mixedProject 0 quietOptions =
     [requires ''app'' ''react'' ''17.0.2'', requires ''app'' ''lodash'' ''4.17.21'',
      requires ''app'' ''kit'' ''2.0.0-ab12-yalc'', requires ''app'' ''router'' ''5.0.0'']
     @ requires ''app'' ''pad'' ''>>1'' # [requires ''app'' ''moment'' ''2.0.0'']"
    by (simp add: mixedProject_def project_def)
  have h3: "\<not> semverSatisfies (mixedClassified ! 4)"
    by (simp add: mixedClassified_def)
  show ?thesis
    using h1 h2 malformed_range_not_satisfying [OF h1 h2] mixed_classified h3 by (intro conjI)
qed

section \<open>Sorting for the report\<close>

lemma mset_insertSorted: "mset (insertSorted cmp x ys) = add_mset x (mset ys)"
  by (induction ys) simp_all

lemma mset_sortArray: "mset (sortArray cmp xs) = mset xs"
  by (induction xs) (simp_all add: mset_insertSorted)

lemma set_sortArray: "set (sortArray cmp xs) = set xs"
  using mset_sortArray [of cmp xs] by (metis set_mset_mset)

lemma set_insertSorted: "set (insertSorted cmp x ys) = insert x (set ys)"
  using mset_insertSorted [of cmp x ys] by (metis set_mset_mset set_mset_add_mset_insert)

lemma sorted_insertSorted:
  assumes total: "\<And>a b. cmp a b \<le> 0 \<or> cmp b a \<le> 0"
    and trans: "\<And>a b c. cmp a b \<le> 0 \<Longrightarrow> cmp b c \<le> 0 \<Longrightarrow> cmp a c \<le> 0"
  shows "sorted_wrt (\<lambda>a b. cmp a b \<le> 0) ys \<Longrightarrow>
         sorted_wrt (\<lambda>a b. cmp a b \<le> 0) (insertSorted cmp x ys)"
proof (induction ys)
  case Nil
  show ?case by simp
next
  case (Cons y ys)
  show ?case
  proof (cases "cmp x y \<le> 0")
    case True
    then have "\<forall>z\<in>set ys. cmp x z \<le> 0" using Cons.prems trans by auto
    with True Cons.prems show ?thesis by simp
  next
    case False
    then have "cmp y x \<le> 0" using total [of x y] by simp
    with False Cons show ?thesis by (auto simp: set_insertSorted)
  qed
qed

lemma sorted_sortArray:
  assumes "\<And>a b. cmp a b \<le> 0 \<or> cmp b a \<le> 0"
    and "\<And>a b c. cmp a b \<le> 0 \<Longrightarrow> cmp b c \<le> 0 \<Longrightarrow> cmp a c \<le> 0"
  shows "sorted_wrt (\<lambda>a b. cmp a b \<le> 0) (sortArray cmp xs)"
  by (induction xs) (simp_all add: sorted_insertSorted [of cmp, OF assms])

lemma filter_insertSorted:
  assumes "\<And>a b. key a = key b \<Longrightarrow> cmp a b \<le> 0"
  shows "filter (\<lambda>d. key d = k) (insertSorted cmp x ys) =
         (if key x = k then x # filter (\<lambda>d. key d = k) ys else filter (\<lambda>d. key d = k) ys)"
proof (induction ys)
  case Nil
  show ?case by simp
next
  case (Cons y ys)
  show ?case
  proof (cases "cmp x y \<le> 0")
    case True
    then show ?thesis by simp
  next
    case False
    then have "key x \<noteq> key y" using assms by blast
    with False Cons show ?thesis by auto
  qed
qed

lemma stable_sortArray:
  assumes "\<And>a b. key a = key b \<Longrightarrow> cmp a b \<le> 0"
  shows "filter (\<lambda>d. key d = k) (sortArray cmp xs) = filter (\<lambda>d. key d = k) xs"
  by (induction xs) (simp_all add: filter_insertSorted [of key cmp, OF assms])

lemma sortArray_stablySortedBy:
  assumes "consistentComparator cmp"
  shows "stablySortedBy cmp key xs (sortArray (\<lambda>a b. cmp (key a) (key b)) xs)"
proof -
  have both: "(\<forall>a b. cmp a b \<le> 0 \<or> cmp b a \<le> 0) \<and>
     (\<forall>a b c. cmp a b \<le> 0 \<and> cmp b c \<le> 0 \<longrightarrow> cmp a c \<le> 0)"
    using assms unfolding consistentComparator_def .
  have total: "cmp a b \<le> 0 \<or> cmp b a \<le> 0" for a b
    by (rule both [THEN conjunct1, rule_format])
  have trans: "cmp a b \<le> 0 \<Longrightarrow> cmp b c \<le> 0 \<Longrightarrow> cmp a c \<le> 0" for a b c
    by (rule both [THEN conjunct2, rule_format]) (rule conjI)
  have refl: "cmp a a \<le> 0" for a using total [of a a] by simp
  have "sorted_wrt (\<lambda>a b. cmp (key a) (key b) \<le> 0) (sortArray (\<lambda>a b. cmp (key a) (key b)) xs)"
  proof (rule sorted_sortArray)
    show "cmp (key a) (key b) \<le> 0 \<or> cmp (key b) (key a) \<le> 0" for a b
      by (rule total)
    show "cmp (key a) (key b) \<le> 0 \<Longrightarrow> cmp (key b) (key c) \<le> 0 \<Longrightarrow> cmp (key a) (key c) \<le> 0"
      for a b c by (rule trans)
  qed
  moreover have "filter (\<lambda>d. key d = k) (sortArray (\<lambda>a b. cmp (key a) (key b)) xs) =
                 filter (\<lambda>d. key d = k) xs" for k
    by (rule stable_sortArray) (simp add: refl)
  ultimately show ?thesis by (simp add: stablySortedBy_def mset_sortArray)
qed

lemma codeUnitCompare_total: "codeUnitCompare a b \<le> 0 \<or> codeUnitCompare b a \<le> 0"
  by (induction a b rule: codeUnitCompare.induct) auto

lemma codeUnitCompare_trans:
  "codeUnitCompare a b \<le> 0 \<Longrightarrow> codeUnitCompare b c \<le> 0 \<Longrightarrow> codeUnitCompare a c \<le> 0"
proof (induction a arbitrary: b c)
  case Nil
  then show ?case by (cases c) simp_all
next
  case (Cons x a)
  from Cons.prems obtain y b' where b: "b = y # b'" by (cases b) auto
  from Cons.prems b obtain z c' where c: "c = z # c'" by (cases c) auto
  from Cons.prems Cons.IH [of b' c'] show ?case
    unfolding b c by (auto split: if_splits)
qed

lemma codeUnitCompare_consistent: "consistentComparator codeUnitCompare"
  unfolding consistentComparator_def
proof (intro conjI allI impI)
  show "codeUnitCompare a b \<le> 0 \<or> codeUnitCompare b a \<le> 0" for a b
    by (rule codeUnitCompare_total)
  show "codeUnitCompare a b \<le> 0 \<and> codeUnitCompare b c \<le> 0 \<Longrightarrow> codeUnitCompare a c \<le> 0" for a b c
    using codeUnitCompare_trans [of a b c] by simp
qed

section \<open>The bodies of the loop\<close>

lemma logs_fields:
  "world (logs evs st) = world st"
  "recursiveCount (logs evs st) = recursiveCount st"
  "printed (logs evs st) = printed st @ evs"
  by (simp_all add: logs_def)

lemma runCommands_fields:
  "world (foldl (runCommand env) st cl) = foldl (\<lambda>w c. exec env c w) (world st) cl"
  "recursiveCount (foldl (runCommand env) st cl) = recursiveCount st"
  "printed (foldl (runCommand env) st cl) = printed st @ concat (map (\<lambda>c. [Command c, Blank]) cl)"
  by (induction cl arbitrary: st) (simp_all add: runCommand_def logs_def)

lemma findSolutions_fields:
  assumes "findSolutions env problems deps st = (st', rws, nosol)"
  shows "world st' = world st"
    and "recursiveCount st' = recursiveCount st"
    and "rws = filter (\<lambda>r. truthy (resolution r)) (findPossibleResolutions env (world st) problems deps)"
    and "nosol = filter (\<lambda>r. \<not> truthy (resolution r)) (findPossibleResolutions env (world st) problems deps)"
    and "printed st' = printed st @ [Blank, Searching, Blank]
           @ map (\<lambda>s. NoSolution (name (problem s)) (peerDepRanges (name (problem s)) deps)) nosol
           @ (if nosol = [] then [] else [BlankErr])"
  using assms by (auto simp: findSolutions_def Let_def logs_def)

text \<open>What \<open>installBody\<close> does, by the records left unmet.\<close>

lemma installBody_eq:
  assumes "getAllNestedPeerDependencies env options (foldl (\<lambda>w c. exec env c w) (world st) cl) = Inr deps"
  shows "installBody env cl options nosol st =
     (let new = newUnsatisfiedDeps env nosol deps;
          st1 = st\<lparr>world := foldl (\<lambda>w c. exec env c w) (world st) cl,
                    printed := printed st @ [Installing, Blank]
                       @ concat (map (\<lambda>c. [Command c, Blank]) cl)
                       @ (if nosol = [] \<and> new = [] then [AllMetAfterInstall] else [])\<rparr>
      in if new = [] then InstallDone Return st1
         else if Suc (recursiveCount st) < 5 then
           ToCheck (st1\<lparr>recursiveCount := Suc (recursiveCount st),
                        printed := printed st1 @ [FoundNew (length new)]\<rparr>)
         else InstallDone (Exit 5)
                (st1\<lparr>recursiveCount := Suc (recursiveCount st),
                      printed := printed st1 @ [FoundNew (length new), RecursionLimit]\<rparr>))"
proof -
  define st1 where "st1 = foldl (runCommand env) (logs [Installing, Blank] st) cl"
  have f: "world st1 = foldl (\<lambda>w c. exec env c w) (world st) cl"
    "recursiveCount st1 = recursiveCount st"
    "printed st1 = printed st @ [Installing, Blank] @ concat (map (\<lambda>c. [Command c, Blank]) cl)"
    by (simp_all add: st1_def runCommands_fields logs_fields)
  have eq: "st1 = st\<lparr>world := world st1, printed := printed st1\<rparr>"
    using f(2) by (cases st, cases st1) simp
  show ?thesis
    unfolding installBody_def st1_def [symmetric] Let_def
    using assms f by (subst (1 2 3 4 5) eq) (simp add: logs_def)
qed

lemma set_sortForReport: "set (sortForReport env options deps) = set deps"
  by (simp add: sortForReport_def set_sortArray)

lemma reportStatus_none:
  "orderBy options \<noteq> ''depender'' \<Longrightarrow> orderBy options \<noteq> ''dependee'' \<Longrightarrow>
     reportStatus options deps = [] \<and> sortForReport env options deps = deps"
  by (simp add: reportStatus_def sortForReport_def)

lemma checkRest_status:
  "filter isStatus (printed (stateOf (checkRest env pm options deps st))) = filter isStatus (printed st)"
proof -
  have m: "filter isStatus (map (\<lambda>s. NoSolution (f s) (g s)) xs) = []" for f g and xs :: "Resolution list"
    by (induction xs) simp_all
  have p: "filter isStatus (map Plain cs) = []" for cs
    by (induction cs) simp_all
  show ?thesis
    by (auto simp: checkRest_def Let_def logs_def findSolutions_def m p split: prod.splits)
qed

lemma installBody_status:
  "installBody env cl options nosol st = InstallDone oc st' \<or>
   installBody env cl options nosol st = ToCheck st' \<Longrightarrow>
   filter isStatus (printed st') = filter isStatus (printed st)"
proof -
  have c: "filter isStatus (concat (map (\<lambda>c. [Command c, Blank]) cs)) = []" for cs
    by (induction cs) simp_all
  assume "installBody env cl options nosol st = InstallDone oc st' \<or>
          installBody env cl options nosol st = ToCheck st'"
  then show ?thesis
    by (auto simp: installBody_def Let_def logs_fields runCommands_fields c
          split: sum.splits if_splits)
qed

lemma checkBody_status:
  assumes "orderBy options \<noteq> ''depender''" "orderBy options \<noteq> ''dependee''"
  shows "filter isStatus (printed (stateOf (checkBody env pm options st))) = filter isStatus (printed st)"
  using assms
  by (simp add: checkBody_def Let_def reportStatus_none checkRest_status logs_fields split: sum.splits)

lemma run_status:
  "orderBy options \<noteq> ''depender'' \<Longrightarrow> orderBy options \<noteq> ''dependee'' \<Longrightarrow>
     filter isStatus (printed (snd (checkPeerDependencies env pm options st))) =
       filter isStatus (printed st)"
  "orderBy options \<noteq> ''depender'' \<Longrightarrow> orderBy options \<noteq> ''dependee'' \<Longrightarrow>
     filter isStatus (printed (snd (installPeerDependencies env cl options nosol pm st))) =
       filter isStatus (printed st)"
proof (induction env pm options st and env cl options nosol pm st
    rule: checkPeerDependencies_installPeerDependencies.induct)
  case (1 env packageManager options st)
  show ?case
  proof (cases "checkBody env packageManager options st")
    case (CheckDone oc st')
    with checkBody_status [OF "1.prems", of env packageManager st] show ?thesis by simp
  next
    case (ToInstall cl nosol st')
    with checkBody_status [OF "1.prems", of env packageManager st] "1.IH" [OF ToInstall "1.prems"]
    show ?thesis by simp
  qed
next
  case (2 env commandLines options nosolution packageManager st)
  show ?case
  proof (cases "installBody env commandLines options nosolution st")
    case (InstallDone oc st')
    with installBody_status [of env commandLines options nosolution st oc st'] show ?thesis by simp
  next
    case (ToCheck st')
    with installBody_status [of env commandLines options nosolution st _ st'] "2.IH" [OF ToCheck "2.prems"]
    show ?thesis by simp
  qed
qed

section \<open>Running the examples\<close>

text \<open>The definitions that running an example unfolds.\<close>

lemmas project_defs = project_def requires_def satisfies_def exactRange_def exactTest_def
  sameEdge_def toString_def yalcPattern_def Plus_def hexClass_def truthy_def

lemmas run_defs = checkBody_def checkRest_def installBody_def findSolutions_def
  getAllNestedPeerDependencies_def applySemverInformation_def sortForReport_def reportStatus_def
  reportPeerDependencyStatusByDepender_def reportPeerDependencyStatusByDependee_def
  compareByDepender_def compareByDependee_def dependerKey_def dependeeKey_def
  newUnsatisfiedDeps_def runCommand_def logs_def peerDepRanges_def Let_def

section \<open>The report\<close>

lemma reportStatus_all_status: "filter isStatus (reportStatus options deps) = reportStatus options deps"
proof -
  have "filter isStatus (concat (map (\<lambda>dep. reportPeerDependencyStatusByDepender dep options) ds)) =
          concat (map (\<lambda>dep. reportPeerDependencyStatusByDepender dep options) ds)"
    "filter isStatus (concat (map (\<lambda>dep. reportPeerDependencyStatusByDependee dep options) ds)) =
          concat (map (\<lambda>dep. reportPeerDependencyStatusByDependee dep options) ds)"
    for ds
    by (induction ds)
      (simp_all add: reportPeerDependencyStatusByDepender_def reportPeerDependencyStatusByDependee_def)
  then show ?thesis by (simp add: reportStatus_def)
qed

lemma checkBody_report:
  assumes "getAllNestedPeerDependencies env options (world st) = Inr deps"
  shows "filter isStatus (printed (stateOf (checkBody env pm options st))) =
           filter isStatus (printed st) @ reportStatus options (sortForReport env options deps)"
  using assms
  by (simp add: checkBody_def Let_def checkRest_status logs_fields reportStatus_all_status)

text \<open>
  C9. For a comparator \<open>localeCompare\<close> that compares any two strings and is transitive,
  the array that \<open>checkPeerDependencies\<close> reports with \<open>orderBy = 'depender'\<close> is the
  gathered records sorted by \<open>depender ++ name\<close>, and with \<open>orderBy = 'dependee'\<close> sorted
  by \<open>name ++ depender\<close>; in both, records of one key keep their gathered order. The
  status lines that \<open>checkPeerDependencies\<close> prints are those of this array, in its order.
\<close>

theorem report_sorted_stably:
  assumes "consistentComparator (localeCompare env)"
  shows "(orderBy options = ''depender'' \<longrightarrow>
            stablySortedBy (localeCompare env) dependerKey deps (sortForReport env options deps)) \<and>
         (orderBy options = ''dependee'' \<longrightarrow>
            stablySortedBy (localeCompare env) dependeeKey deps (sortForReport env options deps)) \<and>
         (getAllNestedPeerDependencies env options (world st) = Inr deps \<longrightarrow>
            filter isStatus (printed (stateOf (checkBody env pm options st))) =
              filter isStatus (printed st) @ reportStatus options (sortForReport env options deps))"
proof -
  have "compareByDepender env = (\<lambda>a b. localeCompare env (dependerKey a) (dependerKey b))"
    and "compareByDependee env = (\<lambda>a b. localeCompare env (dependeeKey a) (dependeeKey b))"
    by (simp_all add: compareByDepender_def compareByDependee_def fun_eq_iff)
  then show ?thesis
    using sortArray_stablySortedBy [OF assms, of dependerKey deps]
      sortArray_stablySortedBy [OF assms, of dependeeKey deps]
      checkBody_report [of env options st deps pm]
    by (simp add: sortForReport_def)
qed

text \<open>The theorem on five records, two pairs of which share their depender key, and on
  the report of \<open>conflictProject\<close>.\<close>

theorem report_sorted_stably_witness:
  "consistentComparator (localeCompare conflictProject) \<and>
   orderBy installOptions = ''depender'' \<and>
   stablySortedBy (localeCompare conflictProject) dependerKey sampleRecords
     (sortForReport conflictProject installOptions sampleRecords) \<and>
   sortForReport conflictProject installOptions sampleRecords =
     [requires ''alpha'' ''core'' ''1.0.0'', requires ''alpha'' ''core'' ''4.0.0'',
      requires ''mid'' ''base'' ''1.0.0'',
      requires ''zeta'' ''core'' ''2.0.0'', requires ''zeta'' ''core'' ''3.0.0''] \<and>
   orderBy (installOptions\<lparr>orderBy := ''dependee''\<rparr>) = ''dependee'' \<and>
   stablySortedBy (localeCompare conflictProject) dependeeKey sampleRecords
     (sortForReport conflictProject (installOptions\<lparr>orderBy := ''dependee''\<rparr>) sampleRecords) \<and>
   sortForReport conflictProject (installOptions\<lparr>orderBy := ''dependee''\<rparr>) sampleRecords =
     [requires ''mid'' ''base'' ''1.0.0'',
      requires ''alpha'' ''core'' ''1.0.0'', requires ''alpha'' ''core'' ''4.0.0'',
      requires ''zeta'' ''core'' ''2.0.0'', requires ''zeta'' ''core'' ''3.0.0''] \<and>
   getAllNestedPeerDependencies conflictProject solveOptions (world startState) =
     Inr conflictClassified \<and>
   filter isStatus (printed (stateOf (checkBody conflictProject ''npm'' solveOptions startState))) =
     filter isStatus (printed startState)
     @ reportStatus solveOptions (sortForReport conflictProject solveOptions conflictClassified) \<and>
   reportStatus solveOptions (sortForReport conflictProject solveOptions conflictClassified) =
     [Status ByDepender WrongVersion (conflictClassified ! 1),
      Status ByDepender WrongVersion (conflictClassified ! 0)]"
proof -
  have c: "consistentComparator (localeCompare conflictProject)"
    by (simp add: conflictProject_def project_def codeUnitCompare_consistent)
  have o1: "orderBy installOptions = ''depender''"
    by (simp add: installOptions_def)
  have o2: "orderBy (installOptions\<lparr>orderBy := ''dependee''\<rparr>) = ''dependee''"
    by simp
  have s1: "sortForReport conflictProject installOptions sampleRecords =
     [requires ''alpha'' ''core'' ''1.0.0'', requires ''alpha'' ''core'' ''4.0.0'',
      requires ''mid'' ''base'' ''1.0.0'',
      requires ''zeta'' ''core'' ''2.0.0'', requires ''zeta'' ''core'' ''3.0.0'']"
    by (simp add: sortForReport_def installOptions_def sampleRecords_def conflictProject_def
          project_def requires_def compareByDepender_def dependerKey_def)
  have s2: "sortForReport conflictProject (installOptions\<lparr>orderBy := ''dependee''\<rparr>) sampleRecords =
     [requires ''mid'' ''base'' ''1.0.0'',
      requires ''alpha'' ''core'' ''1.0.0'', requires ''alpha'' ''core'' ''4.0.0'',
      requires ''zeta'' ''core'' ''2.0.0'', requires ''zeta'' ''core'' ''3.0.0'']"
    by (simp add: sortForReport_def installOptions_def sampleRecords_def conflictProject_def
          project_def requires_def compareByDependee_def dependeeKey_def)
  have g: "getAllNestedPeerDependencies conflictProject solveOptions (world startState) =
      Inr conflictClassified"
    by (simp add: conflictProject_def conflictClassified_def solveOptions_def startState_def
          project_defs run_defs)
  have r: "reportStatus solveOptions (sortForReport conflictProject solveOptions conflictClassified) =
     [Status ByDepender WrongVersion (conflictClassified ! 1),
      Status ByDepender WrongVersion (conflictClassified ! 0)]"
    by (simp add: conflictProject_def conflictClassified_def solveOptions_def project_defs run_defs)
  note t1 = report_sorted_stably [OF c, of installOptions sampleRecords,
      THEN conjunct1, rule_format, OF o1]
  note t2 = report_sorted_stably [OF c, of "installOptions\<lparr>orderBy := ''dependee''\<rparr>" sampleRecords,
      THEN conjunct2, THEN conjunct1, rule_format, OF o2]
  note t3 = report_sorted_stably [OF c, of solveOptions conflictClassified startState "''npm''",
      THEN conjunct2, THEN conjunct2, rule_format, OF g]
  from c o1 t1 s1 o2 t2 s2 g t3 r show ?thesis by (intro conjI)
qed

section \<open>The loop\<close>

text \<open>
  C5. \<open>installPeerDependencies\<close> runs the commands in order, then gathers and classifies
  again on the disk they left. When no record is left that is unsatisfied and is not
  the same edge (by \<open>isSameDep\<close>) as the problem of a resolution without solution, it
  returns at once: one Installing step, every command run once, \<open>recursiveCount\<close>
  untouched, no call of \<open>checkPeerDependencies\<close>, and the process status of a plain
  return, 0. "All peer dependencies are met" is printed only when, besides, no
  resolution was without solution.
\<close>

theorem install_done_when_nothing_new:
  assumes "getAllNestedPeerDependencies env options (foldl (\<lambda>w c. exec env c w) (world st) cl) = Inr deps"
    and "newUnsatisfiedDeps env nosol deps = []"
  shows "installPeerDependencies env cl options nosol pm st =
           (Return,
            st\<lparr>world := foldl (\<lambda>w c. exec env c w) (world st) cl,
                printed := printed st @ [Installing, Blank]
                   @ concat (map (\<lambda>c. [Command c, Blank]) cl)
                   @ (if nosol = [] then [AllMetAfterInstall] else [])\<rparr>) \<and>
         exitStatus Return = 0"
  using assms by (simp add: installBody_eq)

text \<open>The theorem on \<open>partlyProject\<close>, after \<open>react\<close> was installed and with \<open>legacy\<close> known
  to have no solution.\<close>

theorem install_done_when_nothing_new_witness:
  "getAllNestedPeerDependencies partlyProject installOptions
     (foldl (\<lambda>w c. exec partlyProject c w) (world startState) [''npm install react@17.0.2''])
     = Inr partlyAfter \<and>
   newUnsatisfiedDeps partlyProject [legacyNoSolution] partlyAfter = [] \<and>
   installPeerDependencies partlyProject [''npm install react@17.0.2''] installOptions
       [legacyNoSolution] ''npm'' startState =
     (Return,
      startState\<lparr>world := foldl (\<lambda>w c. exec partlyProject c w) (world startState)
                     [''npm install react@17.0.2''],
                 printed := printed startState @ [Installing, Blank]
                   @ concat (map (\<lambda>c. [Command c, Blank]) [''npm install react@17.0.2''])
                   @ (if [legacyNoSolution] = [] then [AllMetAfterInstall] else [])\<rparr>) \<and>
   exitStatus Return = 0"
proof -
  have g: "getAllNestedPeerDependencies partlyProject installOptions
     (foldl (\<lambda>w c. exec partlyProject c w) (world startState) [''npm install react@17.0.2''])
     = Inr partlyAfter"
    by (simp add: partlyProject_def partlyAfter_def installOptions_def startState_def
          project_defs run_defs)
  have n: "newUnsatisfiedDeps partlyProject [legacyNoSolution] partlyAfter = []"
    by (simp add: partlyProject_def partlyAfter_def legacyNoSolution_def project_defs
          newUnsatisfiedDeps_def)
  note t = install_done_when_nothing_new [OF g n, of "''npm''"]
  from g n t [THEN conjunct1] t [THEN conjunct2] show ?thesis by (intro conjI)
qed

text \<open>
  C6. When classification leaves no record that is both unsatisfied and not a yalc
  install, \<open>checkPeerDependencies\<close> prints the status lines of the requested order and
  then "All peer dependencies are met", and returns without calling \<open>process.exit\<close>:
  process status 0. A record that is unsatisfied but a yalc install does not count.
\<close>

theorem all_met_returns:
  assumes "getAllNestedPeerDependencies env options (world st) = Inr deps"
    and "filter (\<lambda>dep. \<not> semverSatisfies dep \<and> \<not> isYalc dep) deps = []"
  shows "checkPeerDependencies env pm options st =
           (Return, logs (reportStatus options (sortForReport env options deps) @ [AllMet]) st) \<and>
         exitStatus Return = 0"
proof -
  have "filter (\<lambda>dep. \<not> semverSatisfies dep \<and> \<not> isYalc dep) (sortForReport env options deps) = []"
    using assms(2) by (simp add: filter_empty_conv set_sortForReport)
  then have "checkBody env pm options st =
      CheckDone Return (logs (reportStatus options (sortForReport env options deps) @ [AllMet]) st)"
    using assms(1) by (simp add: checkBody_def checkRest_def Let_def logs_def)
  then show ?thesis by simp
qed

text \<open>The theorem on \<open>linkedProject\<close>, whose \<open>router\<close> does not satisfy its range but is a
  yalc install.\<close>

theorem all_met_returns_witness:
  "getAllNestedPeerDependencies linkedProject installOptions (world startState) = Inr linkedClassified \<and>
   filter (\<lambda>dep. \<not> semverSatisfies dep \<and> \<not> isYalc dep) linkedClassified = [] \<and>
   checkPeerDependencies linkedProject ''npm'' installOptions startState =
     (Return,
      logs (reportStatus installOptions (sortForReport linkedProject installOptions linkedClassified)
            @ [AllMet]) startState) \<and>
   exitStatus Return = 0 \<and>
   reportStatus installOptions (sortForReport linkedProject installOptions linkedClassified) =
     [Status ByDepender ViaYalc (linkedClassified ! 1)]"
proof -
  have g: "getAllNestedPeerDependencies linkedProject installOptions (world startState) =
      Inr linkedClassified"
    by (simp add: linkedProject_def linkedClassified_def installOptions_def startState_def
          project_defs run_defs)
  have n: "filter (\<lambda>dep. \<not> semverSatisfies dep \<and> \<not> isYalc dep) linkedClassified = []"
    by (simp add: linkedClassified_def requires_def)
  have r: "reportStatus installOptions (sortForReport linkedProject installOptions linkedClassified) =
     [Status ByDepender ViaYalc (linkedClassified ! 1)]"
    by (simp add: linkedProject_def linkedClassified_def installOptions_def project_defs run_defs)
  note t = all_met_returns [OF g n, of "''npm''"]
  from g n t [THEN conjunct1] t [THEN conjunct2] r show ?thesis by (intro conjI)
qed

text \<open>
  C10. When \<open>options.orderBy\<close> is neither \<open>'depender'\<close> nor \<open>'dependee'\<close>, the whole run,
  through every recursion, prints no per-record status line, and the body of
  \<open>checkPeerDependencies\<close> is lines 119-147 (\<open>checkRest\<close>: problems, resolution,
  installation, exit codes) on the classified records in gathered order.
\<close>

theorem no_status_lines_without_order:
  assumes "orderBy options \<noteq> ''depender''" and "orderBy options \<noteq> ''dependee''"
  shows "filter isStatus (printed (snd (checkPeerDependencies env pm options st))) =
           filter isStatus (printed st) \<and>
         checkBody env pm options st =
           (case getAllNestedPeerDependencies env options (world st) of
              Inl e \<Rightarrow> CheckDone (Uncaught e) st
            | Inr deps \<Rightarrow> checkRest env pm options deps st)"
proof (intro conjI)
  show "filter isStatus (printed (snd (checkPeerDependencies env pm options st))) =
          filter isStatus (printed st)"
    by (rule run_status(1) [OF assms])
  have "logs [] st = st" by (simp add: logs_def)
  then show "checkBody env pm options st =
           (case getAllNestedPeerDependencies env options (world st) of
              Inl e \<Rightarrow> CheckDone (Uncaught e) st
            | Inr deps \<Rightarrow> checkRest env pm options deps st)"
    using assms by (simp add: checkBody_def Let_def reportStatus_none split: sum.splits)
qed

text \<open>The theorem on \<open>partlyProject\<close> with \<open>orderBy = 'none'\<close>: the problems are found, one
  is reported without solution, the other is installed.\<close>

theorem no_status_lines_without_order_witness:
  "orderBy (installOptions\<lparr>orderBy := ''none''\<rparr>) \<noteq> ''depender'' \<and>
   orderBy (installOptions\<lparr>orderBy := ''none''\<rparr>) \<noteq> ''dependee'' \<and>
   filter isStatus (printed (snd (checkPeerDependencies partlyProject ''npm''
       (installOptions\<lparr>orderBy := ''none''\<rparr>) startState))) = filter isStatus (printed startState) \<and>
   checkBody partlyProject ''npm'' (installOptions\<lparr>orderBy := ''none''\<rparr>) startState =
     (case getAllNestedPeerDependencies partlyProject (installOptions\<lparr>orderBy := ''none''\<rparr>)
             (world startState) of
        Inl e \<Rightarrow> CheckDone (Uncaught e) startState
      | Inr deps \<Rightarrow>
          checkRest partlyProject ''npm'' (installOptions\<lparr>orderBy := ''none''\<rparr>) deps startState) \<and>
   checkPeerDependencies partlyProject ''npm'' (installOptions\<lparr>orderBy := ''none''\<rparr>) startState =
     (Return,
      \<lparr>world = 1, recursiveCount = 0,
       printed =
         [Blank, Searching, Blank, NoSolution ''legacy'' [''0.0.1''], BlankErr,
          Installing, Blank, Command ''npm install react@17.0.2'', Blank]\<rparr>)"
proof -
  have o: "orderBy (installOptions\<lparr>orderBy := ''none''\<rparr>) \<noteq> ''depender''"
    "orderBy (installOptions\<lparr>orderBy := ''none''\<rparr>) \<noteq> ''dependee''"
    by simp_all
  have r: "checkPeerDependencies partlyProject ''npm'' (installOptions\<lparr>orderBy := ''none''\<rparr>) startState =
     (Return,
      \<lparr>world = 1, recursiveCount = 0,
       printed =
         [Blank, Searching, Blank, NoSolution ''legacy'' [''0.0.1''], BlankErr,
          Installing, Blank, Command ''npm install react@17.0.2'', Blank]\<rparr>)"
    by (simp add: partlyProject_def installOptions_def startState_def project_defs run_defs)
  note t = no_status_lines_without_order [OF o, of partlyProject "''npm''" startState]
  from o t [THEN conjunct1] t [THEN conjunct2] r show ?thesis by (intro conjI)
qed

lemma checkRest_ToInstall:
  assumes "checkRest env pm options deps st = ToInstall cl nosol st'"
  shows "recursiveCount st' = recursiveCount st"
    and "world st' = world st"
    and "count_list (printed st') Installing = count_list (printed st) Installing"
proof -
  have m: "count_list (map (\<lambda>s. NoSolution (f s) (g s)) xs) Installing = 0"
    for f g and xs :: "Resolution list"
    by (induction xs) simp_all
  show "recursiveCount st' = recursiveCount st" "world st' = world st"
    "count_list (printed st') Installing = count_list (printed st) Installing"
    using assms
    by (auto simp: checkRest_def Let_def logs_def findSolutions_def m
          split: prod.splits if_splits)
qed

lemma reportStatus_no_Installing: "count_list (reportStatus options deps) Installing = 0"
proof -
  have "count_list (concat (map (\<lambda>dep. reportPeerDependencyStatusByDepender dep options) ds)) Installing = 0"
    "count_list (concat (map (\<lambda>dep. reportPeerDependencyStatusByDependee dep options) ds)) Installing = 0"
    for ds
    by (induction ds)
      (simp_all add: reportPeerDependencyStatusByDepender_def reportPeerDependencyStatusByDependee_def)
  then show ?thesis by (simp add: reportStatus_def)
qed

lemma checkBody_ToInstall:
  assumes "checkBody env pm options st = ToInstall cl nosol st'"
  shows "recursiveCount st' = recursiveCount st"
    and "world st' = world st"
    and "count_list (printed st') Installing = count_list (printed st) Installing"
proof -
  from assms obtain deps where
    r: "checkRest env pm options deps (logs (reportStatus options deps) st) = ToInstall cl nosol st'"
    by (auto simp: checkBody_def Let_def split: sum.splits)
  show "recursiveCount st' = recursiveCount st" "world st' = world st"
    "count_list (printed st') Installing = count_list (printed st) Installing"
    using checkRest_ToInstall [OF r]
    by (simp_all add: logs_fields reportStatus_no_Installing)
qed

lemma commands_no_Installing:
  "count_list (concat (map (\<lambda>c. [Command c, Blank]) cl)) Installing = 0"
  by (induction cl) simp_all

lemma checkBody_CheckDone:
  assumes "checkBody env pm options st = CheckDone oc st'"
  shows "count_list (printed st') Installing = count_list (printed st) Installing"
proof -
  have m: "count_list (map (\<lambda>s. NoSolution (f s) (g s)) xs) Installing = 0"
    for f g and xs :: "Resolution list"
    by (induction xs) simp_all
  have p: "count_list (map Plain cs) Installing = 0" for cs
    by (induction cs) simp_all
  show ?thesis
    using assms
    by (auto simp: checkBody_def checkRest_def Let_def logs_def findSolutions_def m p
          reportStatus_no_Installing split: sum.splits prod.splits if_splits)
qed

lemma installBody_step:
  "installBody env cl options nosol st = InstallDone oc st' \<Longrightarrow>
     count_list (printed st') Installing = Suc (count_list (printed st) Installing)"
  "installBody env cl options nosol st = ToCheck st' \<Longrightarrow>
     count_list (printed st') Installing = Suc (count_list (printed st) Installing) \<and>
     recursiveCount st' = Suc (recursiveCount st) \<and> recursiveCount st' < 5"
  by (auto simp: installBody_def Let_def logs_fields runCommands_fields commands_no_Installing
        split: sum.splits if_splits)

lemma install_passes_bounded:
  "count_list (printed (snd (checkPeerDependencies env pm options st))) Installing
     \<le> count_list (printed st) Installing + max 1 (5 - recursiveCount st)"
  "count_list (printed (snd (installPeerDependencies env cl options nosol pm st))) Installing
     \<le> count_list (printed st) Installing + max 1 (5 - recursiveCount st)"
proof (induction env pm options st and env cl options nosol pm st
    rule: checkPeerDependencies_installPeerDependencies.induct)
  case (1 env packageManager options st)
  show ?case
  proof (cases "checkBody env packageManager options st")
    case (CheckDone oc st')
    with checkBody_CheckDone [OF CheckDone] show ?thesis by simp
  next
    case (ToInstall cl nosol st')
    with checkBody_ToInstall [OF ToInstall] "1.IH" [OF ToInstall] show ?thesis by simp
  qed
next
  case (2 env commandLines options nosolution packageManager st)
  show ?case
  proof (cases "installBody env commandLines options nosolution st")
    case (InstallDone oc st')
    with installBody_step(1) [OF InstallDone] show ?thesis by simp
  next
    case (ToCheck st')
    from installBody_step(2) [OF ToCheck]
    have a: "count_list (printed st') Installing = Suc (count_list (printed st) Installing)"
      and b: "recursiveCount st' = Suc (recursiveCount st)" and c: "recursiveCount st' < 5"
      by simp_all
    have "installPeerDependencies env commandLines options nosolution packageManager st =
          checkPeerDependencies env packageManager options st'"
      using ToCheck by simp
    moreover have "count_list (printed st') Installing + max 1 (5 - recursiveCount st')
        \<le> count_list (printed st) Installing + max 1 (5 - recursiveCount st)"
      using a b c by simp
    ultimately show ?thesis
      using "2.IH" [OF ToCheck] by (simp only:)
  qed
qed

lemma installsAndLeavesNew_D:
  assumes "installsAndLeavesNew env pm options st"
  obtains cl nosol st1 deps where
    "checkBody env pm options st = ToInstall cl nosol st1"
    "getAllNestedPeerDependencies env options (foldl (\<lambda>w c. exec env c w) (world st1) cl) = Inr deps"
    "newUnsatisfiedDeps env nosol deps \<noteq> []"
  using assms
  by (auto simp: installsAndLeavesNew_def split: checkNext.splits sum.splits)

lemma limit_from:
  "recursiveCount st + n = 4 \<Longrightarrow>
   list_all (installsAndLeavesNew env pm options) (checkStates env pm options st) \<Longrightarrow>
   \<exists>st'. checkPeerDependencies env pm options st = (Exit 5, st') \<and>
         recursiveCount st' = 5 \<and>
         count_list (printed st') Installing = count_list (printed st) Installing + Suc n \<and>
         last (printed st') = RecursionLimit"
proof (induction n arbitrary: st)
  case 0
  from "0.prems"(2) have "installsAndLeavesNew env pm options st"
    by (subst (asm) checkStates.simps) simp
  then obtain cl nosol st1 deps where
    c: "checkBody env pm options st = ToInstall cl nosol st1"
    and g: "getAllNestedPeerDependencies env options (foldl (\<lambda>w c. exec env c w) (world st1) cl) = Inr deps"
    and n: "newUnsatisfiedDeps env nosol deps \<noteq> []"
    by (rule installsAndLeavesNew_D)
  note f = checkBody_ToInstall [OF c]
  from "0.prems"(1) f(1) have rc: "recursiveCount st1 = 4" by simp
  show ?case
    using c n rc f(3) by (simp add: installBody_eq [OF g] commands_no_Installing)
next
  case (Suc n)
  from Suc.prems(2) have "installsAndLeavesNew env pm options st"
    by (subst (asm) checkStates.simps) simp
  then obtain cl nosol st1 deps where
    c: "checkBody env pm options st = ToInstall cl nosol st1"
    and g: "getAllNestedPeerDependencies env options (foldl (\<lambda>w c. exec env c w) (world st1) cl) = Inr deps"
    and n: "newUnsatisfiedDeps env nosol deps \<noteq> []"
    by (rule installsAndLeavesNew_D)
  note f = checkBody_ToInstall [OF c]
  from Suc.prems(1) f(1) have rc: "Suc (recursiveCount st1) < 5" "Suc (recursiveCount st1) + n = 4"
    by simp_all
  define st2 where "st2 = st1\<lparr>world := foldl (\<lambda>w c. exec env c w) (world st1) cl,
      printed := printed st1 @ [Installing, Blank] @ concat (map (\<lambda>c. [Command c, Blank]) cl)
                 @ [FoundNew (length (newUnsatisfiedDeps env nosol deps))],
      recursiveCount := Suc (recursiveCount st1)\<rparr>"
  have i: "installBody env cl options nosol st1 = ToCheck st2"
    using n rc(1) by (simp add: installBody_eq [OF g] st2_def)
  have "checkStates env pm options st = st # checkStates env pm options st2"
    using c i by (subst checkStates.simps) simp
  with Suc.prems(2) have l: "list_all (installsAndLeavesNew env pm options) (checkStates env pm options st2)"
    by simp
  have "recursiveCount st2 + n = 4" using rc(2) by (simp add: st2_def)
  from Suc.IH [OF this l] obtain st' where
    r: "checkPeerDependencies env pm options st2 = (Exit 5, st')" "recursiveCount st' = 5"
      "count_list (printed st') Installing = count_list (printed st2) Installing + Suc n"
      "last (printed st') = RecursionLimit"
    by blast
  have "count_list (printed st2) Installing = Suc (count_list (printed st) Installing)"
    using f(3) by (simp add: st2_def commands_no_Installing)
  with r c i show ?case by simp
qed

lemma checkBody_never_Exit5: "checkBody env pm options st \<noteq> CheckDone (Exit 5) st'"
  by (auto simp: checkBody_def checkRest_def Let_def split: sum.splits prod.splits)

lemma installBody_Exit5:
  assumes "installBody env cl options nosol st = InstallDone (Exit 5) st'"
  shows "\<exists>deps. getAllNestedPeerDependencies env options (foldl (\<lambda>w c. exec env c w) (world st) cl) = Inr deps \<and>
           newUnsatisfiedDeps env nosol deps \<noteq> []"
  using assms
  by (auto simp: installBody_def Let_def runCommands_fields logs_fields split: sum.splits if_splits)

lemma installBody_ToCheck:
  assumes "installBody env cl options nosol st = ToCheck st'"
  shows "\<exists>deps. getAllNestedPeerDependencies env options (foldl (\<lambda>w c. exec env c w) (world st) cl) = Inr deps \<and>
           newUnsatisfiedDeps env nosol deps \<noteq> []"
  using assms
  by (auto simp: installBody_def Let_def runCommands_fields logs_fields split: sum.splits if_splits)

lemma limit_only:
  "fst (checkPeerDependencies env pm options st) = Exit 5 \<Longrightarrow>
     list_all (installsAndLeavesNew env pm options) (checkStates env pm options st)"
  "fst (installPeerDependencies env cl options nosol pm st) = Exit 5 \<Longrightarrow>
     (\<exists>deps. getAllNestedPeerDependencies env options (foldl (\<lambda>w c. exec env c w) (world st) cl) = Inr deps \<and>
           newUnsatisfiedDeps env nosol deps \<noteq> []) \<and>
     (\<forall>st2. installBody env cl options nosol st = ToCheck st2 \<longrightarrow>
        list_all (installsAndLeavesNew env pm options) (checkStates env pm options st2))"
proof (induction env pm options st and env cl options nosol pm st
    rule: checkPeerDependencies_installPeerDependencies.induct)
  case (1 env packageManager options st)
  show ?case
  proof (cases "checkBody env packageManager options st")
    case (CheckDone oc st')
    with "1.prems" checkBody_never_Exit5 [of env packageManager options st st'] show ?thesis by simp
  next
    case (ToInstall cl nosol st1)
    with "1.prems" have "fst (installPeerDependencies env cl options nosol packageManager st1) = Exit 5"
      by simp
    from "1.IH" [OF ToInstall this] obtain deps where
      g: "getAllNestedPeerDependencies env options (foldl (\<lambda>w c. exec env c w) (world st1) cl) = Inr deps"
      and n: "newUnsatisfiedDeps env nosol deps \<noteq> []"
      and r: "\<forall>st2. installBody env cl options nosol st1 = ToCheck st2 \<longrightarrow>
        list_all (installsAndLeavesNew env packageManager options) (checkStates env packageManager options st2)"
      by blast
    have p: "installsAndLeavesNew env packageManager options st"
      using ToInstall g n by (simp add: installsAndLeavesNew_def)
    show ?thesis
      using p r ToInstall
      by (subst checkStates.simps) (simp split: installNext.splits)
  qed
next
  case (2 env commandLines options nosolution packageManager st)
  show ?case
  proof (cases "installBody env commandLines options nosolution st")
    case (InstallDone oc st')
    with "2.prems" have "oc = Exit 5" by simp
    with InstallDone installBody_Exit5 [of env commandLines options nosolution st st']
    show ?thesis by simp
  next
    case (ToCheck st2)
    with "2.prems" have "fst (checkPeerDependencies env packageManager options st2) = Exit 5"
      by simp
    from "2.IH" [OF ToCheck this] installBody_ToCheck [OF ToCheck] ToCheck
    show ?thesis by simp
  qed
qed

text \<open>
  C1, amended. From \<open>recursiveCount = 0\<close>, no run performs more than five Installing
  steps. If in every pass of the run \<open>checkPeerDependencies\<close> goes on to
  \<open>installPeerDependencies\<close> (install was asked for, a problem that is not a yalc install
  exists, and there is a command to run) and the re-verification after the commands
  leaves at least one new unsatisfied record, then the run ends in the fifth Installing
  step, at \<open>recursiveCount = 5\<close>, with "Recursion limit reached (5)" and
  \<open>process.exit(5)\<close>; and only such runs end with code 5. The passes are the states in
  which the run enters \<open>checkPeerDependencies\<close> (\<open>checkStates\<close>).
\<close>

theorem recursion_limit_reached:
  assumes "recursiveCount st = 0"
  shows "count_list (printed (snd (checkPeerDependencies env pm options st))) Installing
           \<le> count_list (printed st) Installing + 5 \<and>
         (list_all (installsAndLeavesNew env pm options) (checkStates env pm options st) \<longrightarrow>
          (\<exists>st'. checkPeerDependencies env pm options st = (Exit 5, st') \<and>
               recursiveCount st' = 5 \<and>
               count_list (printed st') Installing = count_list (printed st) Installing + 5 \<and>
               last (printed st') = RecursionLimit)) \<and>
         (fst (checkPeerDependencies env pm options st) = Exit 5 \<longrightarrow>
            list_all (installsAndLeavesNew env pm options) (checkStates env pm options st))"
proof (intro conjI impI)
  show "count_list (printed (snd (checkPeerDependencies env pm options st))) Installing
           \<le> count_list (printed st) Installing + 5"
    using install_passes_bounded(1) [of env pm options st] assms by simp
next
  assume "list_all (installsAndLeavesNew env pm options) (checkStates env pm options st)"
  then show "\<exists>st'. checkPeerDependencies env pm options st = (Exit 5, st') \<and>
               recursiveCount st' = 5 \<and>
               count_list (printed st') Installing = count_list (printed st) Installing + 5 \<and>
               last (printed st') = RecursionLimit"
    using limit_from [of st 4 env pm options] assms by simp
next
  assume "fst (checkPeerDependencies env pm options st) = Exit 5"
  then show "list_all (installsAndLeavesNew env pm options) (checkStates env pm options st)"
    by (rule limit_only(1))
qed

text \<open>The theorem on \<open>lateProject\<close>: the run passes through the disks 0 to 4, where the
  install command does not help; after nine commands it would.\<close>

lemma late_passes:
  "list_all (installsAndLeavesNew lateProject ''npm'' installOptions)
     (checkStates lateProject ''npm'' installOptions startState)"
  "map world (checkStates lateProject ''npm'' installOptions startState) = [0, 1, 2, 3, 4]"
  "\<not> installsAndLeavesNew lateProject ''npm'' installOptions (startState\<lparr>world := 9\<rparr>)"
  by (simp_all add: lateProject_def installOptions_def startState_def project_defs run_defs
        installsAndLeavesNew_def)

theorem recursion_limit_reached_witness:
  "recursiveCount startState = 0 \<and>
   list_all (installsAndLeavesNew lateProject ''npm'' installOptions)
     (checkStates lateProject ''npm'' installOptions startState) \<and>
   map world (checkStates lateProject ''npm'' installOptions startState) = [0, 1, 2, 3, 4] \<and>
   \<not> installsAndLeavesNew lateProject ''npm'' installOptions (startState\<lparr>world := 9\<rparr>) \<and>
   count_list (printed (snd (checkPeerDependencies lateProject ''npm'' installOptions startState)))
       Installing \<le> count_list (printed startState) Installing + 5 \<and>
   (\<exists>st'. checkPeerDependencies lateProject ''npm'' installOptions startState = (Exit 5, st') \<and>
       recursiveCount st' = 5 \<and>
       count_list (printed st') Installing = count_list (printed startState) Installing + 5 \<and>
       last (printed st') = RecursionLimit) \<and>
   fst (checkPeerDependencies lateProject ''npm'' installOptions startState) = Exit 5"
proof -
  have z: "recursiveCount startState = 0" by (simp add: startState_def)
  note t = recursion_limit_reached [OF z, of lateProject "''npm''" installOptions]
  note r = t [THEN conjunct2, THEN conjunct1, THEN mp, OF late_passes(1)]
  from r have e: "fst (checkPeerDependencies lateProject ''npm'' installOptions startState) = Exit 5"
    by (auto simp del: checkPeerDependencies.simps)
  note nec = t [THEN conjunct2, THEN conjunct2, THEN mp, OF e]
  from z nec late_passes(2) late_passes(3) t [THEN conjunct1] r e
  show ?thesis by (intro conjI)
qed

text \<open>
  C1 as stated fails on \<open>chainProject\<close>: the only re-verification pass leaves a new
  unsatisfied record (\<open>runtime\<close>, "Found 1 new unmet peerDependencies..."), yet the run
  stops in the next pass of \<open>checkPeerDependencies\<close>, at \<open>recursiveCount = 1\<close>, with
  \<open>process.exit(1)\<close>: \<open>runtime\<close> has no solution, so there is no command to run.
\<close>

theorem recursion_limit_counterexample:
  "getAllNestedPeerDependencies chainProject installOptions 1 = Inr chainAfter \<and>
   newUnsatisfiedDeps chainProject [] chainAfter =
     [(requires ''core'' ''runtime'' ''3.0.0'')\<lparr>installedVersion := Some ''1.0.0''\<rparr>] \<and>
   checkPeerDependencies chainProject ''npm'' installOptions startState =
     (Exit 1,
      \<lparr>world = 1, recursiveCount = 1,
       printed =
         [Status ByDepender WrongVersion
            ((requires ''plugin'' ''core'' ''2.0.0'')\<lparr>installedVersion := Some ''1.0.0''\<rparr>),
          Blank, Searching, Blank,
          Installing, Blank, Command ''npm install core@2.0.0'', Blank, FoundNew 1,
          Status ByDepender WrongVersion
            ((requires ''core'' ''runtime'' ''3.0.0'')\<lparr>installedVersion := Some ''1.0.0''\<rparr>),
          Blank, Searching, Blank, NoSolution ''runtime'' [''3.0.0''], BlankErr]\<rparr>)"
  by (simp add: chainProject_def chainAfter_def installOptions_def startState_def
        project_defs run_defs)

lemma partly_run:
  "checkPeerDependencies partlyProject ''npm'' installOptions startState =
     (Return,
      \<lparr>world = 1, recursiveCount = 0,
       printed =
         [Status ByDepender WrongVersion
            ((requires ''app'' ''legacy'' ''0.0.1'')\<lparr>installedVersion := Some ''1.0.0''\<rparr>),
          Status ByDepender WrongVersion
            ((requires ''app'' ''react'' ''17.0.2'')\<lparr>installedVersion := Some ''16.0.0''\<rparr>),
          Blank, Searching, Blank, NoSolution ''legacy'' [''0.0.1''], BlankErr,
          Installing, Blank, Command ''npm install react@17.0.2'', Blank]\<rparr>)"
  by (simp add: partlyProject_def installOptions_def startState_def project_defs run_defs)

text \<open>
  C2 on a failing input. In \<open>partlyProject\<close> with \<open>--install\<close>, \<open>legacy\<close> has no solution
  (its diagnostic is printed) and \<open>react\<close> is installed; the re-verification finds
  nothing new, \<open>installPeerDependencies\<close> returns, and the process ends with status 0.
\<close>

theorem partly_install_returns_success:
  "checkPeerDependencies partlyProject ''npm'' installOptions startState =
     (Return,
      \<lparr>world = 1, recursiveCount = 0,
       printed =
         [Status ByDepender WrongVersion
            ((requires ''app'' ''legacy'' ''0.0.1'')\<lparr>installedVersion := Some ''1.0.0''\<rparr>),
          Status ByDepender WrongVersion
            ((requires ''app'' ''react'' ''17.0.2'')\<lparr>installedVersion := Some ''16.0.0''\<rparr>),
          Blank, Searching, Blank, NoSolution ''legacy'' [''0.0.1''], BlankErr,
          Installing, Blank, Command ''npm install react@17.0.2'', Blank]\<rparr>) \<and>
   exitStatus (fst (checkPeerDependencies partlyProject ''npm'' installOptions startState)) = 0"
  by (simp add: partly_run del: checkPeerDependencies.simps)

section \<open>The diagnostics of findSolutions\<close>

lemma set_firstSeen: "set (firstSeen xs) = set xs"
  by (induction xs rule: firstSeen.induct) auto

lemma distinct_firstSeen: "distinct (firstSeen xs)"
  by (induction xs rule: firstSeen.induct) (auto simp: set_firstSeen)

lemma foldl_includes:
  "foldl (\<lambda>acc v. if v \<in> set acc then acc else acc @ [v]) acc vs =
     acc @ firstSeen (filter (\<lambda>v. v \<notin> set acc) vs)"
proof (induction vs arbitrary: acc)
  case Nil
  show ?case by simp
next
  case (Cons v vs)
  show ?case
  proof (cases "v \<in> set acc")
    case True
    then show ?thesis by (simp add: Cons.IH)
  next
    case False
    have "filter (\<lambda>y. y \<noteq> v) (filter (\<lambda>v. v \<notin> set acc) vs) =
          filter (\<lambda>x. x \<notin> set (acc @ [v])) vs"
      by (induction vs) auto
    with False show ?thesis by (simp add: Cons.IH)
  qed
qed

lemma peerDepRanges_firstSeen:
  "peerDepRanges n deps = firstSeen (map version (filter (\<lambda>d. name d = n) deps))"
proof -
  have "foldl (\<lambda>acc dep. if version dep \<in> set acc then acc else acc @ [version dep]) acc ds =
        foldl (\<lambda>acc v. if v \<in> set acc then acc else acc @ [v]) acc (map version ds)"
    for acc and ds :: "Dependency list"
    by (induction ds arbitrary: acc) simp_all
  then show ?thesis
    by (simp add: peerDepRanges_def foldl_includes)
qed

lemma checkRest_diagnostics:
  assumes "install options \<or> findSolutionsOpt options"
    and "filter (\<lambda>dep. \<not> semverSatisfies dep \<and> \<not> isYalc dep) deps \<noteq> []"
  shows "filter isNoSolution (printed (stateOf (checkRest env pm options deps st))) =
     filter isNoSolution (printed st) @
     map (\<lambda>s. NoSolution (name (problem s)) (peerDepRanges (name (problem s)) deps))
       (filter (\<lambda>r. \<not> truthy (resolution r))
          (findPossibleResolutions env (world st)
             (filter (\<lambda>dep. \<not> semverSatisfies dep \<and> \<not> isYalc dep) deps) deps))"
proof -
  have m: "filter isNoSolution (map (\<lambda>s. NoSolution (f s) (g s)) xs) = map (\<lambda>s. NoSolution (f s) (g s)) xs"
    for f g and xs :: "Resolution list"
    by (induction xs) simp_all
  have p: "filter isNoSolution (map Plain cs) = []" for cs
    by (induction cs) simp_all
  show ?thesis
    using assms
    by (auto simp: checkRest_def Let_def logs_def findSolutions_def m p split: prod.splits)
qed

lemma reportStatus_no_diagnostic: "filter isNoSolution (reportStatus options deps) = []"
proof -
  have "filter isNoSolution (concat (map (\<lambda>dep. reportPeerDependencyStatusByDepender dep options) ds)) = []"
    "filter isNoSolution (concat (map (\<lambda>dep. reportPeerDependencyStatusByDependee dep options) ds)) = []"
    for ds
    by (induction ds)
      (simp_all add: reportPeerDependencyStatusByDepender_def reportPeerDependencyStatusByDependee_def)
  then show ?thesis by (simp add: reportStatus_def)
qed

text \<open>
  C8, amended. When \<open>checkPeerDependencies\<close> searches for solutions, it prints one
  diagnostic for every resolution without a version, and the diagnostic lists the ranges
  declared for that package name, each distinct range once, in the order of first
  appearance in the array \<open>allNestedPeerDependencies\<close> as \<open>findSolutions\<close> receives it:
  the classified records as sorted in place for the report when \<open>orderBy\<close> is
  \<open>'depender'\<close> or \<open>'dependee'\<close>, and in gathered order otherwise.
\<close>

theorem diagnostic_ranges_first_seen:
  assumes "getAllNestedPeerDependencies env options (world st) = Inr gathered"
    and "install options \<or> findSolutionsOpt options"
    and "filter (\<lambda>dep. \<not> semverSatisfies dep \<and> \<not> isYalc dep) gathered \<noteq> []"
  shows "filter isNoSolution (printed (stateOf (checkBody env pm options st))) =
           filter isNoSolution (printed st) @
           map (\<lambda>s. NoSolution (name (problem s))
                      (firstSeen (map version
                         (filter (\<lambda>d. name d = name (problem s))
                            (sortForReport env options gathered)))))
             (filter (\<lambda>r. \<not> truthy (resolution r))
                (findPossibleResolutions env (world st)
                   (filter (\<lambda>dep. \<not> semverSatisfies dep \<and> \<not> isYalc dep)
                      (sortForReport env options gathered))
                   (sortForReport env options gathered))) \<and>
         (orderBy options \<noteq> ''depender'' \<and> orderBy options \<noteq> ''dependee'' \<longrightarrow>
            sortForReport env options gathered = gathered) \<and>
         distinct (peerDepRanges n deps) \<and>
         set (peerDepRanges n deps) = set (map version (filter (\<lambda>d. name d = n) deps))"
proof (intro conjI)
  have "filter (\<lambda>dep. \<not> semverSatisfies dep \<and> \<not> isYalc dep) (sortForReport env options gathered) \<noteq> []"
    using assms(3) by (simp add: filter_empty_conv set_sortForReport)
  from checkRest_diagnostics [OF assms(2) this, of env pm "logs (reportStatus options (sortForReport env options gathered)) st"]
  show "filter isNoSolution (printed (stateOf (checkBody env pm options st))) =
           filter isNoSolution (printed st) @
           map (\<lambda>s. NoSolution (name (problem s))
                      (firstSeen (map version
                         (filter (\<lambda>d. name d = name (problem s))
                            (sortForReport env options gathered)))))
             (filter (\<lambda>r. \<not> truthy (resolution r))
                (findPossibleResolutions env (world st)
                   (filter (\<lambda>dep. \<not> semverSatisfies dep \<and> \<not> isYalc dep)
                      (sortForReport env options gathered))
                   (sortForReport env options gathered)))"
    using assms(1)
    by (simp add: checkBody_def Let_def logs_fields reportStatus_no_diagnostic
          peerDepRanges_firstSeen)
  show "orderBy options \<noteq> ''depender'' \<and> orderBy options \<noteq> ''dependee'' \<longrightarrow>
            sortForReport env options gathered = gathered"
    by (simp add: sortForReport_def)
  show "distinct (peerDepRanges n deps)"
    by (simp add: peerDepRanges_firstSeen distinct_firstSeen)
  show "set (peerDepRanges n deps) = set (map version (filter (\<lambda>d. name d = n) deps))"
    by (simp only: peerDepRanges_firstSeen set_firstSeen)
qed

text \<open>
  C8 as stated fails on \<open>conflictProject\<close> with \<open>orderBy = 'depender'\<close>: the gatherer lists
  the range of \<open>zeta\<close> (\<open>2.0.0\<close>) before the range of \<open>alpha\<close> (\<open>1.0.0\<close>), the sort of line
  112 puts \<open>alpha\<close> first, and the diagnostic reads "1.0.0 and 2.0.0".
\<close>

theorem diagnostic_ranges_counterexample:
  "getAllNestedPeerDependencies conflictProject solveOptions (world startState) = Inr conflictClassified \<and>
   map name conflictClassified = [''core'', ''core''] \<and>
   firstSeen (map version conflictClassified) = [''2.0.0'', ''1.0.0''] \<and>
   filter isNoSolution
     (printed (snd (checkPeerDependencies conflictProject ''npm'' solveOptions startState))) =
     [NoSolution ''core'' [''1.0.0'', ''2.0.0'']]"
  by (simp add: conflictProject_def conflictClassified_def solveOptions_def startState_def
        project_defs run_defs)

text \<open>The theorem on \<open>conflictProject\<close>, with \<open>orderBy = 'depender'\<close> and with an order that
  is neither.\<close>

theorem diagnostic_ranges_first_seen_witness:
  "getAllNestedPeerDependencies conflictProject solveOptions (world startState) = Inr conflictClassified \<and>
   (install solveOptions \<or> findSolutionsOpt solveOptions) \<and>
   filter (\<lambda>dep. \<not> semverSatisfies dep \<and> \<not> isYalc dep) conflictClassified \<noteq> [] \<and>
   filter isNoSolution (printed (stateOf (checkBody conflictProject ''npm'' solveOptions startState))) =
     filter isNoSolution (printed startState) @
     map (\<lambda>s. NoSolution (name (problem s))
                (firstSeen (map version
                   (filter (\<lambda>d. name d = name (problem s))
                      (sortForReport conflictProject solveOptions conflictClassified)))))
       (filter (\<lambda>r. \<not> truthy (resolution r))
          (findPossibleResolutions conflictProject (world startState)
             (filter (\<lambda>dep. \<not> semverSatisfies dep \<and> \<not> isYalc dep)
                (sortForReport conflictProject solveOptions conflictClassified))
             (sortForReport conflictProject solveOptions conflictClassified))) \<and>
   distinct (peerDepRanges ''core'' conflictClassified) \<and>
   set (peerDepRanges ''core'' conflictClassified) =
     set (map version (filter (\<lambda>d. name d = ''core'') conflictClassified)) \<and>
   sortForReport conflictProject solveOptions conflictClassified = rev conflictClassified \<and>
   peerDepRanges ''core'' (sortForReport conflictProject solveOptions conflictClassified) =
     [''1.0.0'', ''2.0.0''] \<and>
   getAllNestedPeerDependencies conflictProject (solveOptions\<lparr>orderBy := ''none''\<rparr>)
     (world startState) = Inr conflictClassified \<and>
   (install (solveOptions\<lparr>orderBy := ''none''\<rparr>) \<or>
    findSolutionsOpt (solveOptions\<lparr>orderBy := ''none''\<rparr>)) \<and>
   orderBy (solveOptions\<lparr>orderBy := ''none''\<rparr>) \<noteq> ''depender'' \<and>
   orderBy (solveOptions\<lparr>orderBy := ''none''\<rparr>) \<noteq> ''dependee'' \<and>
   sortForReport conflictProject (solveOptions\<lparr>orderBy := ''none''\<rparr>) conflictClassified =
     conflictClassified \<and>
   peerDepRanges ''core'' conflictClassified = [''2.0.0'', ''1.0.0'']"
proof -
  have g: "getAllNestedPeerDependencies conflictProject solveOptions (world startState) =
      Inr conflictClassified"
    by (simp add: conflictProject_def conflictClassified_def solveOptions_def startState_def
          project_defs run_defs)
  have o: "install solveOptions \<or> findSolutionsOpt solveOptions"
    by (simp add: solveOptions_def)
  have p: "filter (\<lambda>dep. \<not> semverSatisfies dep \<and> \<not> isYalc dep) conflictClassified \<noteq> []"
    by (simp add: conflictClassified_def requires_def)
  have s: "sortForReport conflictProject solveOptions conflictClassified = rev conflictClassified"
    by (simp add: conflictProject_def conflictClassified_def solveOptions_def project_defs run_defs)
  have r: "peerDepRanges ''core'' (sortForReport conflictProject solveOptions conflictClassified) =
     [''1.0.0'', ''2.0.0'']"
    by (simp add: s) (simp add: conflictClassified_def requires_def peerDepRanges_def)
  have g': "getAllNestedPeerDependencies conflictProject (solveOptions\<lparr>orderBy := ''none''\<rparr>)
     (world startState) = Inr conflictClassified"
    by (simp add: conflictProject_def conflictClassified_def solveOptions_def startState_def
          project_defs run_defs)
  have o': "install (solveOptions\<lparr>orderBy := ''none''\<rparr>) \<or>
    findSolutionsOpt (solveOptions\<lparr>orderBy := ''none''\<rparr>)"
    by (simp add: solveOptions_def)
  have n: "orderBy (solveOptions\<lparr>orderBy := ''none''\<rparr>) \<noteq> ''depender''"
    "orderBy (solveOptions\<lparr>orderBy := ''none''\<rparr>) \<noteq> ''dependee''"
    by simp_all
  have r': "peerDepRanges ''core'' conflictClassified = [''2.0.0'', ''1.0.0'']"
    by (simp add: conflictClassified_def requires_def peerDepRanges_def)
  note t = diagnostic_ranges_first_seen [OF g o p, of "''npm''" "''core''" conflictClassified]
  note t' = diagnostic_ranges_first_seen [OF g' o' p, of "''npm''" "''core''" conflictClassified]
  from g o p t [THEN conjunct1] t [THEN conjunct2, THEN conjunct2, THEN conjunct1]
    t [THEN conjunct2, THEN conjunct2, THEN conjunct2] s r g' o' n
    t' [THEN conjunct2, THEN conjunct1, THEN mp, OF conjI, OF n] r'
  show ?thesis by (intro conjI)
qed

end
